theory Spec2Isabelle
  imports Main "HOL-Library.AList"
begin

section \<open>JavaScript values, errors and HTTP responses\<close>

text \<open>
  The Cloud Functions answer with \<^verbatim>\<open>res.status(n).json({...})\<close>. A response is the
  status and the JSON object, kept as the list of its keys and values in the order the
  source writes them.
\<close>

datatype jval = JNull | JBool bool | JNum int | JStr string

record response =
  status :: nat
  body :: "(string \<times> jval) list"

text \<open>A thrown error object: \<^verbatim>\<open>error.message\<close> and \<^verbatim>\<open>error.code\<close>
  (\<open>JNull\<close> when the error carries no code).\<close>

record js_error =
  err_message :: string
  err_code :: jval

datatype 'a outcome = Returns 'a | Throws js_error

text \<open>JavaScript truthiness of the values the handlers test with \<^verbatim>\<open>!x\<close> and \<^verbatim>\<open>x || d\<close>.\<close>

fun falsy :: "jval \<Rightarrow> bool" where
  "falsy JNull = True"
| "falsy (JBool b) = (\<not> b)"
| "falsy (JNum n) = (n = 0)"
| "falsy (JStr s) = (s = [])"

text \<open>A request field is absent (\<open>None\<close>) or a string; the empty string is falsy.\<close>

definition truthy :: "string option \<Rightarrow> bool" where
  "truthy x = (case x of None \<Rightarrow> False | Some s \<Rightarrow> s \<noteq> [])"

definition orElse :: "string option \<Rightarrow> string \<Rightarrow> string" where
  "orElse x d = (case x of None \<Rightarrow> d | Some s \<Rightarrow> if s = [] then d else s)"

definition orNull :: "string option \<Rightarrow> string option" where
  "orNull x = (case x of None \<Rightarrow> None | Some s \<Rightarrow> if s = [] then None else Some s)"

definition jstr_or_null :: "string option \<Rightarrow> jval" where
  "jstr_or_null x = (case x of None \<Rightarrow> JNull | Some s \<Rightarrow> JStr s)"

subsection \<open>Number.prototype.toString for integers\<close>

definition digit_char :: "nat \<Rightarrow> char" where
  "digit_char n = ''0123456789'' ! (n mod 10)"

fun nat_to_string :: "nat \<Rightarrow> string" where
  "nat_to_string n =
     (if n < 10 then [digit_char n] else nat_to_string (n div 10) @ [digit_char n])"

declare nat_to_string.simps [simp del]

definition toString :: "int \<Rightarrow> string" where
  "toString i = (if i < 0 then CHR ''-'' # nat_to_string (nat (- i)) else nat_to_string (nat i))"

subsection \<open>Input formats\<close>

definition isDigit :: "char \<Rightarrow> bool" where
  "isDigit c = (c \<in> set ''0123456789'')"

text \<open>\<^verbatim>\<open>/^\d{6}$/.test(otp)\<close> (verifyOtp.js, isValidOTP).\<close>

definition isValidOTP :: "string \<Rightarrow> bool" where
  "isValidOTP otp = (length otp = 6 \<and> list_all isDigit otp)"

text \<open>\<^verbatim>\<open>/^\+[1-9]\d{1,14}$/.test(phone)\<close> (sendOtp.js, isValidPhoneNumber).\<close>

definition isValidPhoneNumber :: "string \<Rightarrow> bool" where
  "isValidPhoneNumber p =
     (case p of
        c0 # c1 # rest \<Rightarrow>
          c0 = CHR ''+'' \<and> c1 \<in> set ''123456789'' \<and>
          1 \<le> length rest \<and> length rest \<le> 14 \<and> list_all isDigit rest
      | _ \<Rightarrow> False)"

text \<open>utils/twilioClient.js, maskPhoneNumber.\<close>

definition maskPhoneNumber :: "string \<Rightarrow> string" where
  "maskPhoneNumber p =
     (if p = [] \<or> length p < 8 then ''***INVALID***''
      else take 4 p @ replicate (length p - 7) CHR ''*'' @ drop (length p - 3) p)"

section \<open>The Session Store\<close>

text \<open>
  One document of the \<^verbatim>\<open>otp_sessions\<close> collection, with the fields \<^verbatim>\<open>sendOtp\<close> writes.
  Timestamps are milliseconds since the epoch, as \<^verbatim>\<open>Date.getTime()\<close> gives them.
\<close>

record session =
  phone :: string
  otpHash :: string
  createdAt :: int
  expiresAt :: int
  attempts :: int
  source :: string
  used :: bool
  name :: "string option"
  email :: "string option"
  messageSid :: "string option"

text \<open>One document of \<^verbatim>\<open>password_reset_sessions\<close> (resetPassword.js).\<close>

record reset_session =
  r_phone :: string
  r_otpHash :: string
  r_createdAt :: int
  r_expiresAt :: int
  r_attempts :: int
  r_used :: bool
  r_messageSid :: "string option"

text \<open>Every call a handler makes to a collaborator, in the order it is made.\<close>

datatype event =
    StoreQuery string string int
  | StoreGet string string
  | StoreSet string string
  | StoreUpdate string string string
  | StoreDelete string string
  | BcryptHash
  | BcryptCompare
  | TwilioCreate string
  | AuthGetUser string
  | AuthCreateUser string
  | AuthCreateToken string
  | AuthUpdateUser string

datatype level = Info | Warn | Error

text \<open>
  The state the handlers act on: the two collections (document id and document), the
  console, the calls made so far, and the pending \<^verbatim>\<open>setTimeout\<close> deletions of
  \<^verbatim>\<open>otp_sessions\<close> documents and of \<^verbatim>\<open>password_reset_sessions\<close> documents (delay in
  milliseconds, document id).
\<close>

record world =
  otp_sessions :: "(string \<times> session) list"
  password_reset_sessions :: "(string \<times> reset_session) list"
  logs :: "(level \<times> string) list"
  trace :: "event list"
  timers :: "(nat \<times> string) list"
  reset_timers :: "(nat \<times> string) list"

text \<open>
  What the collaborators answer during one request: the clock at each place the source
  reads it, the random number, the document id Firestore generates, whether a store
  operation throws, bcrypt, the Twilio API, Firebase Auth and the configured minimum
  length of a password.
\<close>

record env =
  clock_window :: int
  clock_wait :: int
  clock_now :: int
  clock_sid :: int
  randomInt :: int
  newDocId :: string
  storeQuery :: "js_error option"
  storeGet :: "js_error option"
  storeSet :: "js_error option"
  storeUpdate :: "js_error option"
  storeDelete :: "js_error option"
  bcryptHash :: "string \<Rightarrow> string outcome"
  bcryptCompare :: "string \<Rightarrow> string \<Rightarrow> bool outcome"
  twilioConfigured :: bool
  twilioCreate :: "(string \<times> string) outcome"
  authGetUser :: "string outcome"
  authCreateUser :: "string outcome"
  authCreateToken :: "string outcome"
  authUpdateUser :: "unit outcome"
  passwordMinLength :: int

definition log :: "level \<Rightarrow> string \<Rightarrow> world \<Rightarrow> world" where
  "log l s w = w\<lparr>logs := logs w @ [(l, s)]\<rparr>"

definition emit :: "event \<Rightarrow> world \<Rightarrow> world" where
  "emit e w = w\<lparr>trace := trace w @ [e]\<rparr>"

definition setTimeout :: "nat \<Rightarrow> string \<Rightarrow> world \<Rightarrow> world" where
  "setTimeout ms sid w = w\<lparr>timers := timers w @ [(ms, sid)]\<rparr>"

text \<open>The calls and the log lines a handler added between two states.\<close>

definition events_of :: "world \<Rightarrow> world \<Rightarrow> event list" where
  "events_of w w' = drop (length (trace w)) (trace w')"

definition logs_of :: "world \<Rightarrow> world \<Rightarrow> (level \<times> string) list" where
  "logs_of w w' = drop (length (logs w)) (logs w')"

subsection \<open>Operations on \<^verbatim>\<open>otp_sessions\<close>\<close>

text \<open>\<^verbatim>\<open>sessionRef.get()\<close>: the document, or none.\<close>

definition getDoc :: "env \<Rightarrow> string \<Rightarrow> world \<Rightarrow> session option outcome \<times> world" where
  "getDoc e sid w =
     (let w1 = emit (StoreGet ''otp_sessions'' sid) w in
      case storeGet e of
        Some err \<Rightarrow> (Throws err, w1)
      | None \<Rightarrow> (Returns (map_of (otp_sessions w1) sid), w1))"

text \<open>\<^verbatim>\<open>sessionRef.delete()\<close>.\<close>

definition deleteDoc :: "env \<Rightarrow> string \<Rightarrow> world \<Rightarrow> unit outcome \<times> world" where
  "deleteDoc e sid w =
     (let w1 = emit (StoreDelete ''otp_sessions'' sid) w in
      case storeDelete e of
        Some err \<Rightarrow> (Throws err, w1)
      | None \<Rightarrow> (Returns (), w1\<lparr>otp_sessions := AList.delete sid (otp_sessions w1)\<rparr>))"

text \<open>\<^verbatim>\<open>sessionRef.update({field: v})\<close>; Firestore rejects an update of a document
  that does not exist.\<close>

definition updateDoc ::
  "env \<Rightarrow> string \<Rightarrow> string \<Rightarrow> (session \<Rightarrow> session) \<Rightarrow> world \<Rightarrow> unit outcome \<times> world" where
  "updateDoc e sid field f w =
     (let w1 = emit (StoreUpdate ''otp_sessions'' sid field) w in
      case storeUpdate e of
        Some err \<Rightarrow> (Throws err, w1)
      | None \<Rightarrow>
          (case map_of (otp_sessions w1) sid of
             None \<Rightarrow> (Throws \<lparr>err_message = ''No document to update'', err_code = JNum 5\<rparr>, w1)
           | Some s \<Rightarrow>
               (Returns (), w1\<lparr>otp_sessions := AList.update sid (f s) (otp_sessions w1)\<rparr>)))"

text \<open>\<^verbatim>\<open>sessionRef.set(sessionData)\<close>.\<close>

definition setDoc :: "env \<Rightarrow> string \<Rightarrow> session \<Rightarrow> world \<Rightarrow> unit outcome \<times> world" where
  "setDoc e sid s w =
     (let w1 = emit (StoreSet ''otp_sessions'' sid) w in
      case storeSet e of
        Some err \<Rightarrow> (Throws err, w1)
      | None \<Rightarrow> (Returns (), w1\<lparr>otp_sessions := AList.update sid s (otp_sessions w1)\<rparr>))"

text \<open>
  \<^verbatim>\<open>.where('phone', '==', p).where('createdAt', '>', since).get()\<close>: the matching
  documents. Firestore returns the result of a query with a range filter in ascending
  order of the filtered field, so \<^verbatim>\<open>docs[0]\<close> is a document with the least
  \<^verbatim>\<open>createdAt\<close>.
\<close>

definition queryByPhoneSince :: "(string \<times> session) list \<Rightarrow> string \<Rightarrow> int \<Rightarrow> session list" where
  "queryByPhoneSince store p since =
     sort_key createdAt (filter (\<lambda>s. phone s = p \<and> createdAt s > since) (map snd store))"

section \<open>verifyOtp.js\<close>

record verify_request =
  v_method :: string
  v_sessionId :: "string option"
  v_otp :: "string option"
  v_phone :: "string option"

definition json :: "nat \<Rightarrow> (string \<times> jval) list \<Rightarrow> response" where
  "json st kvs = \<lparr>status = st, body = kvs\<rparr>"

definition failure :: "nat \<Rightarrow> string \<Rightarrow> string \<Rightarrow> response" where
  "failure st c m =
     json st [(''success'', JBool False), (''code'', JStr c), (''message'', JStr m)]"

text \<open>checkUserExists: the uid of the account, none when Firebase Auth reports
  \<^verbatim>\<open>auth/user-not-found\<close>; any other error is thrown on.\<close>

definition checkUserExists :: "env \<Rightarrow> string \<Rightarrow> world \<Rightarrow> string option outcome \<times> world" where
  "checkUserExists e ph w =
     (let w1 = emit (AuthGetUser ph) w in
      case authGetUser e of
        Returns uid \<Rightarrow> (Returns (Some uid), w1)
      | Throws err \<Rightarrow>
          if err_code err = JStr ''auth/user-not-found'' then (Returns None, w1)
          else (Throws err, w1))"

definition createCustomToken :: "env \<Rightarrow> string \<Rightarrow> world \<Rightarrow> string outcome \<times> world" where
  "createCustomToken e uid w = (authCreateToken e, emit (AuthCreateToken uid) w)"

definition createUser :: "env \<Rightarrow> string \<Rightarrow> world \<Rightarrow> string outcome \<times> world" where
  "createUser e ph w = (authCreateUser e, emit (AuthCreateUser ph) w)"

text \<open>Lines 154 to 209: the code matched. The session is marked used, its deletion is
  scheduled five seconds later, and only then Firebase Auth is called.\<close>

definition verifyOtp_success ::
  "env \<Rightarrow> string \<Rightarrow> string \<Rightarrow> session \<Rightarrow> world \<Rightarrow> response outcome \<times> world" where
  "verifyOtp_success e sid ph sessionData w =
     (let maskedPhone = maskPhoneNumber ph;
          w1 = log Info (''[verifyOtp] Valid OTP for '' @ maskedPhone) w;
          (u, w2) = updateDoc e sid ''used'' (\<lambda>s. s\<lparr>used := True\<rparr>) w1
      in case u of
           Throws err \<Rightarrow> (Throws err, w2)
         | Returns _ \<Rightarrow>
             (let w3 = setTimeout 5000 sid w2;
                  (userCheck, w4) = checkUserExists e ph w3
              in case userCheck of
                   Throws err \<Rightarrow> (Throws err, w4)
                 | Returns (Some uid) \<Rightarrow>
                     (let (t, w5) = createCustomToken e uid w4 in
                      case t of
                        Throws err \<Rightarrow> (Throws err, w5)
                      | Returns customToken \<Rightarrow>
                          (Returns (json 200
                             [(''success'', JBool True), (''newUser'', JBool False),
                              (''uid'', JStr uid), (''customToken'', JStr customToken),
                              (''phone'', JStr ph),
                              (''message'', JStr ''OTP verified. User authenticated.'')]),
                           log Info (''[verifyOtp] Existing user authenticated: '' @ maskedPhone) w5))
                 | Returns None \<Rightarrow>
                     (let (n, w5) = createUser e ph w4 in
                      case n of
                        Throws err \<Rightarrow> (Throws err, w5)
                      | Returns newUid \<Rightarrow>
                          (let (t, w6) = createCustomToken e newUid w5 in
                           case t of
                             Throws err \<Rightarrow> (Throws err, w6)
                           | Returns customToken \<Rightarrow>
                               (Returns (json 200
                                  [(''success'', JBool True), (''newUser'', JBool True),
                                   (''uid'', JStr newUid), (''customToken'', JStr customToken),
                                   (''phone'', JStr ph),
                                   (''name'', jstr_or_null (orNull (name sessionData))),
                                   (''email'', jstr_or_null (orNull (email sessionData))),
                                   (''message'', JStr ''OTP verified. Please create a password.'')]),
                                log Info (''[verifyOtp] New user created: '' @ maskedPhone
                                          @ ''. UID: '' @ newUid) w6)))))"

text \<open>Lines 135 to 152: the bcrypt comparison and the failed attempt.\<close>

definition verifyOtp_compare ::
  "env \<Rightarrow> string \<Rightarrow> string \<Rightarrow> string \<Rightarrow> session \<Rightarrow> world \<Rightarrow> response outcome \<times> world" where
  "verifyOtp_compare e sid otp ph sessionData w =
     (let w1 = emit BcryptCompare w in
      case bcryptCompare e otp (otpHash sessionData) of
        Throws err \<Rightarrow> (Throws err, w1)
      | Returns True \<Rightarrow> verifyOtp_success e sid ph sessionData w1
      | Returns False \<Rightarrow>
          (let newAttempts = attempts sessionData + 1;
               (u, w2) = updateDoc e sid ''attempts'' (\<lambda>s. s\<lparr>attempts := newAttempts\<rparr>) w1
           in case u of
                Throws err \<Rightarrow> (Throws err, w2)
              | Returns _ \<Rightarrow>
                  (let attemptsRemaining = 5 - newAttempts in
                   (Returns (json 403
                      [(''success'', JBool False), (''code'', JStr ''INVALID_OTP''),
                       (''message'', JStr (''Incorrect OTP. '' @ toString attemptsRemaining
                           @ '' attempt'' @ (if attemptsRemaining \<noteq> 1 then ''s'' else [])
                           @ '' remaining.'')),
                       (''attemptsRemaining'', JNum attemptsRemaining)]),
                    log Warn (''[verifyOtp] Invalid OTP for '' @ maskPhoneNumber ph
                              @ ''. Attempts: '' @ toString newAttempts @ ''/5'') w2))))"

text \<open>Lines 91 to 133: the checks on the session that was read.\<close>

definition verifyOtp_session ::
  "env \<Rightarrow> string \<Rightarrow> string \<Rightarrow> string \<Rightarrow> session \<Rightarrow> world \<Rightarrow> response outcome \<times> world" where
  "verifyOtp_session e sid otp ph sessionData w =
     (let maskedPhone = maskPhoneNumber ph in
      if phone sessionData \<noteq> ph then
        (Returns (failure 403 ''PHONE_MISMATCH'' ''Phone number does not match the session.''),
         log Warn (''[verifyOtp] Phone mismatch for SessionID: '' @ sid) w)
      else if used sessionData then
        (Returns (failure 403 ''OTP_ALREADY_USED''
                    ''This OTP has already been used. Please request a new one.''),
         log Warn (''[verifyOtp] Attempted reuse of OTP for '' @ maskedPhone) w)
      else if clock_now e > expiresAt sessionData then
        (let (d, w1) = deleteDoc e sid (log Warn (''[verifyOtp] Expired OTP for '' @ maskedPhone) w) in
         case d of
           Throws err \<Rightarrow> (Throws err, w1)
         | Returns _ \<Rightarrow>
             (Returns (failure 403 ''EXPIRED_OTP'' ''OTP has expired. Please request a new one.''), w1))
      else if attempts sessionData \<ge> 5 then
        (let (d, w1) = deleteDoc e sid
                         (log Warn (''[verifyOtp] Max attempts exceeded for '' @ maskedPhone) w) in
         case d of
           Throws err \<Rightarrow> (Throws err, w1)
         | Returns _ \<Rightarrow>
             (Returns (failure 403 ''MAX_ATTEMPTS_EXCEEDED''
                         ''Too many failed attempts. Please request a new OTP.''), w1))
      else verifyOtp_compare e sid otp ph sessionData w)"

text \<open>Lines 51 to 89: the body of the \<^verbatim>\<open>try\<close> block up to the session read.\<close>

definition verifyOtp_try :: "env \<Rightarrow> verify_request \<Rightarrow> world \<Rightarrow> response outcome \<times> world" where
  "verifyOtp_try e req w =
     (if \<not> truthy (v_sessionId req) \<or> \<not> truthy (v_otp req) \<or> \<not> truthy (v_phone req) then
        (Returns (failure 400 ''MISSING_REQUIRED_FIELDS'' ''sessionId, otp, and phone are required''), w)
      else
        (let sid = orElse (v_sessionId req) []; otp = orElse (v_otp req) [];
             ph = orElse (v_phone req) []
         in if \<not> isValidOTP otp then
              (Returns (failure 400 ''INVALID_OTP_FORMAT'' ''OTP must be 6 digits''), w)
            else
              (let maskedPhone = maskPhoneNumber ph;
                   w1 = log Info (''[verifyOtp] Verification attempt for '' @ maskedPhone
                                  @ ''. SessionID: '' @ sid) w;
                   (got, w2) = getDoc e sid w1
               in case got of
                    Throws err \<Rightarrow> (Throws err, w2)
                  | Returns None \<Rightarrow>
                      (Returns (failure 404 ''SESSION_NOT_FOUND''
                                  ''Invalid or expired session. Please request a new OTP.''),
                       log Warn (''[verifyOtp] Session not found for '' @ maskedPhone
                                 @ ''. SessionID: '' @ sid) w2)
                  | Returns (Some sessionData) \<Rightarrow> verifyOtp_session e sid otp ph sessionData w2)))"

text \<open>The \<^verbatim>\<open>catch\<close> of the handler (lines 211 to 222). Of the logged object
  \<^verbatim>\<open>{message, code}\<close> the log line keeps the message.\<close>

definition verifyOtp_catch :: "response outcome \<times> world \<Rightarrow> response \<times> world" where
  "verifyOtp_catch rw =
     (case rw of
        (Returns r, w') \<Rightarrow> (r, w')
      | (Throws err, w') \<Rightarrow>
          (failure 500 ''INTERNAL_ERROR'' ''An unexpected error occurred. Please try again later.'',
           log Error (''[verifyOtp] Unexpected error: '' @ err_message err) w'))"

text \<open>The handler: the method check, the \<^verbatim>\<open>try\<close> block and its \<^verbatim>\<open>catch\<close>.\<close>

definition verifyOtp :: "env \<Rightarrow> verify_request \<Rightarrow> world \<Rightarrow> response \<times> world" where
  "verifyOtp e req w =
     (if v_method req \<noteq> ''POST'' then
        (failure 405 ''METHOD_NOT_ALLOWED'' ''Only POST requests are allowed'', w)
      else verifyOtp_catch (verifyOtp_try e req w))"

text \<open>The callback of \<^verbatim>\<open>setTimeout\<close> (lines 161 to 167): the scheduled deletion runs,
  and a failure of the deletion is logged, not thrown.\<close>

definition runTimer :: "env \<Rightarrow> nat \<times> string \<Rightarrow> world \<Rightarrow> world" where
  "runTimer e t w =
     (case t of (ms, sid) \<Rightarrow>
        (let w0 = w\<lparr>timers := remove1 t (timers w)\<rparr>;
             (d, w1) = deleteDoc e sid w0
         in case d of
              Throws err \<Rightarrow> log Error (''[verifyOtp] Failed to delete session: '' @ err_message err) w1
            | Returns _ \<Rightarrow> w1))"

text \<open>The machine-readable code of a response.\<close>

definition code_of :: "response \<Rightarrow> jval option" where
  "code_of r = map_of (body r) ''code''"

section \<open>utils/twilioClient.js\<close>

text \<open>What \<^verbatim>\<open>sendSMSOTP\<close> resolves to: \<^verbatim>\<open>{success: true, messageSid, status, channel}\<close>
  or \<^verbatim>\<open>{success: false, error, message, channel}\<close>.\<close>

datatype twilio_result =
    SendOk string string string
  | SendFailed jval string string

definition errorMessages :: "(int \<times> string) list" where
  "errorMessages =
     [(21211, ''Invalid phone number format. Please check and try again.''),
      (21408, ''Permission denied for this phone number.''),
      (21610, ''Message blocked by carrier. Number may be on do-not-contact list.''),
      (21614, ''This is not a valid mobile number.''),
      (21608, ''This phone number is not SMS-capable.''),
      (30007, ''Message filtered as spam. Contact support.'')]"

text \<open>\<^verbatim>\<open>errorMessages[error.code]\<close>: the property is looked up under the code written as
  a string.\<close>

definition lookupErrorMessage :: "jval \<Rightarrow> string option" where
  "lookupErrorMessage c =
     (case c of
        JNum n \<Rightarrow> map_of errorMessages n
      | JStr s \<Rightarrow> map_of (map (\<lambda>(k, v). (toString k, v)) errorMessages) s
      | _ \<Rightarrow> None)"

definition render :: "jval \<Rightarrow> string" where
  "render v =
     (case v of
        JNull \<Rightarrow> ''undefined''
      | JBool b \<Rightarrow> (if b then ''true'' else ''false'')
      | JNum n \<Rightarrow> toString n
      | JStr s \<Rightarrow> s)"

text \<open>sendSMSOTP. Without credentials (\<^verbatim>\<open>!client || !fromPhoneNumber\<close>) nothing is sent
  and the call succeeds; with them the Twilio API is called, and an error it throws is
  caught and returned as a failure. The check mark and the cross that open two of the
  log lines in the source are not ASCII and are left out of the logged text.\<close>

definition sendSMSOTP :: "env \<Rightarrow> string \<Rightarrow> string \<Rightarrow> world \<Rightarrow> twilio_result \<times> world" where
  "sendSMSOTP e toPhoneNumber otp w =
     (let maskedPhone = maskPhoneNumber toPhoneNumber in
      if \<not> twilioConfigured e then
        (SendOk (''SM_TEST_'' @ toString (clock_sid e)) ''queued'' ''sms-test'',
         log Info ''[Twilio] TEST MODE - Configure credentials in .env to send real SMS''
           (log Info (''[Twilio] TEST MODE - OTP: '' @ otp)
              (log Info (''[Twilio] TEST MODE - Would send SMS to '' @ maskedPhone) w)))
      else
        (let w1 = emit (TwilioCreate toPhoneNumber)
                    (log Info (''[Twilio] Sending SMS OTP to '' @ maskedPhone) w) in
         case twilioCreate e of
           Returns (sid, st) \<Rightarrow>
             (SendOk sid st ''sms'',
              log Info (''[Twilio] Status: '' @ st)
                (log Info (''[Twilio] Message SID: '' @ sid)
                   (log Info (''[Twilio] SMS sent successfully to '' @ maskedPhone) w1)))
         | Throws err \<Rightarrow>
             (SendFailed
                (if falsy (err_code err) then JStr ''TWILIO_ERROR'' else err_code err)
                (orElse (lookupErrorMessage (err_code err))
                   ''Failed to send verification code. Please try again.'')
                ''sms'',
              log Error (''[Twilio] Error message: '' @ err_message err)
                (log Error (''[Twilio] Error code: '' @ render (err_code err))
                   (log Error (''[Twilio] Failed to send SMS to '' @ maskedPhone) w1)))))"

definition sendWhatsAppOTP :: "env \<Rightarrow> string \<Rightarrow> string \<Rightarrow> world \<Rightarrow> twilio_result \<times> world" where
  "sendWhatsAppOTP e toPhoneNumber otp w =
     sendSMSOTP e toPhoneNumber otp (log Info ''[Twilio] WhatsApp not yet configured, using SMS'' w)"

section \<open>sendOtp.js\<close>

record send_request =
  s_method :: string
  s_phone :: "string option"
  s_name :: "string option"
  s_email :: "string option"
  s_source :: "string option"

text \<open>generateSecureOTP: \<^verbatim>\<open>crypto.randomInt(100000, 1000000).toString()\<close>.\<close>

definition generateSecureOTP :: "env \<Rightarrow> string" where
  "generateSecureOTP e = toString (randomInt e)"

text \<open>\<^verbatim>\<open>Math.ceil(a / b)\<close> for integers \<open>a\<close> and \<open>b > 0\<close>.\<close>

definition ceil_div :: "int \<Rightarrow> int \<Rightarrow> int" where
  "ceil_div a b = - ((- a) div b)"

text \<open>What checkRateLimit returns: \<^verbatim>\<open>{allowed: true}\<close> or
  \<^verbatim>\<open>{allowed: false, waitMinutes}\<close>.\<close>

datatype rate_limit = Allowed | Limited int

text \<open>checkRateLimit. The clock is read once for the window (line 14) and once more, after
  the query, for the wait (line 27).\<close>

definition checkRateLimit :: "env \<Rightarrow> string \<Rightarrow> world \<Rightarrow> rate_limit \<times> world" where
  "checkRateLimit e ph w =
     (let fifteenMinutesAgo = clock_window e - 15 * 60 * 1000;
          w1 = emit (StoreQuery ''otp_sessions'' ph fifteenMinutesAgo) w
      in case storeQuery e of
           Some err \<Rightarrow>
             (Allowed, log Error (''[sendOtp] Rate limit check failed: '' @ err_message err) w1)
         | None \<Rightarrow>
             (let recentSessions = queryByPhoneSince (otp_sessions w1) ph fifteenMinutesAgo;
                  sessionCount = length recentSessions
              in if sessionCount \<ge> 3 then
                   (let oldestSession = recentSessions ! 0;
                        oldestTime = createdAt oldestSession;
                        waitMillis = (oldestTime + 15 * 60 * 1000) - clock_wait e;
                        waitMinutes = ceil_div waitMillis 60000
                    in (Limited waitMinutes, w1))
                 else (Allowed, w1)))"

text \<open>Lines 98 to 152: the code is generated, hashed and sent; the session is written
  after the send succeeded.\<close>

definition sendOtp_issue ::
  "env \<Rightarrow> send_request \<Rightarrow> string \<Rightarrow> world \<Rightarrow> response outcome \<times> world" where
  "sendOtp_issue e req ph w =
     (let maskedPhone = maskPhoneNumber ph;
          otp = generateSecureOTP e;
          w1 = log Info (''[sendOtp] TEST MODE - OTP: '' @ otp)
                 (log Info (''[sendOtp] Generated OTP for '' @ maskedPhone) w);
          w2 = emit BcryptHash w1
      in case bcryptHash e otp of
           Throws err \<Rightarrow> (Throws err, w2)
         | Returns hash \<Rightarrow>
             (let sessionId = newDocId e;
                  now = clock_now e;
                  sessionData = \<lparr>phone = ph, otpHash = hash, createdAt = now,
                                 expiresAt = now + 5 * 60 * 1000, attempts = 0,
                                 source = orElse (s_source req) ''whatsapp'', used = False,
                                 name = orNull (s_name req), email = orNull (s_email req),
                                 messageSid = None\<rparr>;
                  (twilioResult, w3) =
                     (if s_source req = Some ''sms'' then sendSMSOTP e ph otp w2
                      else sendWhatsAppOTP e ph otp w2)
              in case twilioResult of
                   SendFailed err msg ch \<Rightarrow>
                     (Returns (json 500
                        [(''success'', JBool False), (''code'', err),
                         (''message'', JStr (orElse (Some msg) ''Failed to send OTP. Please try again.''))]),
                      log Error (''[sendOtp] Twilio send failed for '' @ maskedPhone @ '': ''
                                 @ render err) w3)
                 | SendOk sid st ch \<Rightarrow>
                     (let (u, w4) = setDoc e sessionId (sessionData\<lparr>messageSid := Some sid\<rparr>) w3 in
                      case u of
                        Throws err \<Rightarrow> (Throws err, w4)
                      | Returns _ \<Rightarrow>
                          (Returns (json 200
                             [(''success'', JBool True), (''sessionId'', JStr sessionId),
                              (''messageSid'', JStr sid),
                              (''message'', JStr (''OTP sent via '' @ orElse (s_source req) ''WhatsApp'')),
                              (''expiresIn'', JNum 300), (''testOtp'', JStr otp)]),
                           log Info (''[sendOtp] OTP session created for '' @ maskedPhone
                                     @ ''. SessionID: '' @ sessionId) w4))))"

text \<open>Lines 66 to 96: validation and the rate limit.\<close>

definition sendOtp_try :: "env \<Rightarrow> send_request \<Rightarrow> world \<Rightarrow> response outcome \<times> world" where
  "sendOtp_try e req w =
     (if \<not> truthy (s_phone req) then
        (Returns (failure 400 ''MISSING_PHONE'' ''Phone number is required''), w)
      else
        (let ph = orElse (s_phone req) [] in
         if \<not> isValidPhoneNumber ph then
           (Returns (failure 400 ''INVALID_PHONE_FORMAT''
                       ''Phone number must be in E.164 format (e.g., +2348100000000)''), w)
         else
           (let maskedPhone = maskPhoneNumber ph;
                w1 = log Info (''[sendOtp] OTP request for '' @ maskedPhone) w;
                (rateLimitCheck, w2) = checkRateLimit e ph w1
            in case rateLimitCheck of
                 Limited waitMinutes \<Rightarrow>
                   (Returns (json 429
                      [(''success'', JBool False), (''code'', JStr ''RATE_LIMIT_EXCEEDED''),
                       (''message'', JStr (''Too many OTP requests. Please try again in ''
                                           @ toString waitMinutes @ '' minutes.'')),
                       (''retryAfter'', JNum (waitMinutes * 60))]),
                    log Warn (''[sendOtp] Rate limit exceeded for '' @ maskedPhone) w2)
               | Allowed \<Rightarrow> sendOtp_issue e req ph w2)))"

definition sendOtp_catch :: "response outcome \<times> world \<Rightarrow> response \<times> world" where
  "sendOtp_catch rw =
     (case rw of
        (Returns r, w') \<Rightarrow> (r, w')
      | (Throws err, w') \<Rightarrow>
          (failure 500 ''INTERNAL_ERROR'' ''An unexpected error occurred. Please try again later.'',
           log Error (''[sendOtp] Unexpected error: '' @ err_message err) w'))"

definition sendOtp :: "env \<Rightarrow> send_request \<Rightarrow> world \<Rightarrow> response \<times> world" where
  "sendOtp e req w =
     (if s_method req \<noteq> ''POST'' then
        (failure 405 ''METHOD_NOT_ALLOWED'' ''Only POST requests are allowed'', w)
      else sendOtp_catch (sendOtp_try e req w))"

section \<open>resetPassword.js: requesting a code\<close>

definition queryResetByPhoneSince ::
  "(string \<times> reset_session) list \<Rightarrow> string \<Rightarrow> int \<Rightarrow> reset_session list" where
  "queryResetByPhoneSince store p since =
     sort_key r_createdAt (filter (\<lambda>s. r_phone s = p \<and> r_createdAt s > since) (map snd store))"

definition setResetDoc :: "env \<Rightarrow> string \<Rightarrow> reset_session \<Rightarrow> world \<Rightarrow> unit outcome \<times> world" where
  "setResetDoc e sid s w =
     (let w1 = emit (StoreSet ''password_reset_sessions'' sid) w in
      case storeSet e of
        Some err \<Rightarrow> (Throws err, w1)
      | None \<Rightarrow>
          (Returns (),
           w1\<lparr>password_reset_sessions := AList.update sid s (password_reset_sessions w1)\<rparr>))"

text \<open>checkResetRateLimit.\<close>

definition checkResetRateLimit :: "env \<Rightarrow> string \<Rightarrow> world \<Rightarrow> rate_limit \<times> world" where
  "checkResetRateLimit e ph w =
     (let fifteenMinutesAgo = clock_window e - 15 * 60 * 1000;
          w1 = emit (StoreQuery ''password_reset_sessions'' ph fifteenMinutesAgo) w
      in case storeQuery e of
           Some err \<Rightarrow>
             (Allowed, log Error (''[resetPassword] Rate limit check failed: '' @ err_message err) w1)
         | None \<Rightarrow>
             (let recentResets =
                    queryResetByPhoneSince (password_reset_sessions w1) ph fifteenMinutesAgo
              in if length recentResets \<ge> 3 then
                   (let oldestReset = recentResets ! 0;
                        oldestTime = r_createdAt oldestReset;
                        waitMillis = (oldestTime + 15 * 60 * 1000) - clock_wait e;
                        waitMinutes = ceil_div waitMillis 60000
                    in (Limited waitMinutes, w1))
                 else (Allowed, w1)))"

text \<open>Lines 93 to 137 of handleRequestOTP: the account exists.\<close>

definition handleRequestOTP_issue :: "env \<Rightarrow> string \<Rightarrow> world \<Rightarrow> response outcome \<times> world" where
  "handleRequestOTP_issue e ph w =
     (let maskedPhone = maskPhoneNumber ph;
          otp = generateSecureOTP e;
          w1 = emit BcryptHash w
      in case bcryptHash e otp of
           Throws err \<Rightarrow> (Throws err, w1)
         | Returns hash \<Rightarrow>
             (let sessionId = newDocId e;
                  now = clock_now e;
                  sessionData = \<lparr>r_phone = ph, r_otpHash = hash, r_createdAt = now,
                                 r_expiresAt = now + 5 * 60 * 1000, r_attempts = 0,
                                 r_used = False, r_messageSid = None\<rparr>;
                  (twilioResult, w2) = sendWhatsAppOTP e ph otp w1
              in case twilioResult of
                   SendFailed err msg ch \<Rightarrow>
                     (Returns (json 500
                        [(''success'', JBool False), (''code'', err),
                         (''message'', JStr (orElse (Some msg) ''Failed to send OTP''))]),
                      log Error (''[resetPassword] Failed to send OTP to '' @ maskedPhone) w2)
                 | SendOk sid st ch \<Rightarrow>
                     (let (u, w3) = setResetDoc e sessionId
                                      (sessionData\<lparr>r_messageSid := Some sid\<rparr>) w2 in
                      case u of
                        Throws err \<Rightarrow> (Throws err, w3)
                      | Returns _ \<Rightarrow>
                          (Returns (json 200
                             [(''success'', JBool True), (''sessionId'', JStr sessionId),
                              (''messageSid'', JStr sid),
                              (''message'', JStr ''OTP sent to your phone''),
                              (''expiresIn'', JNum 300), (''testOtp'', JStr otp)]),
                           log Info (''[resetPassword] TEST MODE - OTP: '' @ otp)
                             (log Info (''[resetPassword] OTP sent for password reset: ''
                                        @ maskedPhone) w3)))))"

text \<open>handleRequestOTP. An error it throws is caught by the \<^verbatim>\<open>resetPassword\<close> handler.\<close>

definition handleRequestOTP :: "env \<Rightarrow> string option \<Rightarrow> world \<Rightarrow> response outcome \<times> world" where
  "handleRequestOTP e phone_field w =
     (let ph = orElse phone_field [] in
      if \<not> truthy phone_field \<or> \<not> isValidPhoneNumber ph then
        (Returns (failure 400 ''INVALID_PHONE_FORMAT''
                    ''Phone number is required and must be in E.164 format''), w)
      else
        (let maskedPhone = maskPhoneNumber ph;
             w1 = log Info (''[resetPassword] OTP request for password reset: '' @ maskedPhone) w;
             (rateLimitCheck, w2) = checkResetRateLimit e ph w1
         in case rateLimitCheck of
              Limited waitMinutes \<Rightarrow>
                (Returns (json 429
                   [(''success'', JBool False), (''code'', JStr ''RATE_LIMIT_EXCEEDED''),
                    (''message'', JStr (''Too many password reset requests. Try again in ''
                                        @ toString waitMinutes @ '' minutes.'')),
                    (''retryAfter'', JNum (waitMinutes * 60))]),
                 log Warn (''[resetPassword] Rate limit exceeded for '' @ maskedPhone) w2)
            | Allowed \<Rightarrow>
                (let w3 = emit (AuthGetUser ph) w2 in
                 case authGetUser e of
                   Throws err \<Rightarrow>
                     if err_code err = JStr ''auth/user-not-found'' then
                       (Returns (json 200
                          [(''success'', JBool True),
                           (''message'', JStr ''If an account with this phone number exists, an OTP has been sent.'')]),
                        log Warn (''[resetPassword] User not found: '' @ maskedPhone) w3)
                     else (Throws err, w3)
                 | Returns _ \<Rightarrow> handleRequestOTP_issue e ph w3)))"

section \<open>resetPassword.js: verifying the code and changing the password\<close>

record reset_request =
  p_sessionId :: "string option"
  p_otp :: "string option"
  p_phone :: "string option"
  p_newPassword :: "string option"

text \<open>validatePassword: the message of the rejection, or none when the password is
  accepted.\<close>

definition validatePassword :: "env \<Rightarrow> string option \<Rightarrow> string option" where
  "validatePassword e password =
     (let minLength = passwordMinLength e in
      if \<not> truthy password \<or> int (length (orElse password [])) < minLength then
        Some (''Password must be at least '' @ toString minLength @ '' characters long'')
      else None)"

subsection \<open>Operations on \<^verbatim>\<open>password_reset_sessions\<close>\<close>

definition getResetDoc :: "env \<Rightarrow> string \<Rightarrow> world \<Rightarrow> reset_session option outcome \<times> world" where
  "getResetDoc e sid w =
     (let w1 = emit (StoreGet ''password_reset_sessions'' sid) w in
      case storeGet e of
        Some err \<Rightarrow> (Throws err, w1)
      | None \<Rightarrow> (Returns (map_of (password_reset_sessions w1) sid), w1))"

definition deleteResetDoc :: "env \<Rightarrow> string \<Rightarrow> world \<Rightarrow> unit outcome \<times> world" where
  "deleteResetDoc e sid w =
     (let w1 = emit (StoreDelete ''password_reset_sessions'' sid) w in
      case storeDelete e of
        Some err \<Rightarrow> (Throws err, w1)
      | None \<Rightarrow>
          (Returns (),
           w1\<lparr>password_reset_sessions := AList.delete sid (password_reset_sessions w1)\<rparr>))"

definition updateResetDoc ::
  "env \<Rightarrow> string \<Rightarrow> string \<Rightarrow> (reset_session \<Rightarrow> reset_session) \<Rightarrow> world
   \<Rightarrow> unit outcome \<times> world" where
  "updateResetDoc e sid field f w =
     (let w1 = emit (StoreUpdate ''password_reset_sessions'' sid field) w in
      case storeUpdate e of
        Some err \<Rightarrow> (Throws err, w1)
      | None \<Rightarrow>
          (case map_of (password_reset_sessions w1) sid of
             None \<Rightarrow> (Throws \<lparr>err_message = ''No document to update'', err_code = JNum 5\<rparr>, w1)
           | Some s \<Rightarrow>
               (Returns (),
                w1\<lparr>password_reset_sessions :=
                     AList.update sid (f s) (password_reset_sessions w1)\<rparr>)))"

definition setResetTimeout :: "nat \<Rightarrow> string \<Rightarrow> world \<Rightarrow> world" where
  "setResetTimeout ms sid w = w\<lparr>reset_timers := reset_timers w @ [(ms, sid)]\<rparr>"

text \<open>The \<^verbatim>\<open>catch\<close> of lines 253 to 265: the error is logged; an unknown account is
  answered with 404, any other error is thrown on.\<close>

definition resetPassword_catch :: "js_error \<Rightarrow> world \<Rightarrow> response outcome \<times> world" where
  "resetPassword_catch err w =
     (let w1 = log Error (''[resetPassword] Error updating password: '' @ err_message err) w in
      if err_code err = JStr ''auth/user-not-found'' then
        (Returns (failure 404 ''USER_NOT_FOUND'' ''User not found''), w1)
      else (Throws err, w1))"

text \<open>Lines 230 to 252: the code matched. The password is changed first; then the session
  is marked used and its deletion is scheduled five seconds later.\<close>

definition handleResetPassword_update ::
  "env \<Rightarrow> string \<Rightarrow> string \<Rightarrow> world \<Rightarrow> response outcome \<times> world" where
  "handleResetPassword_update e sid ph w =
     (let w1 = emit (AuthGetUser ph) w in
      case authGetUser e of
        Throws err \<Rightarrow> resetPassword_catch err w1
      | Returns uid \<Rightarrow>
          (let w2 = emit (AuthUpdateUser uid) w1 in
           case authUpdateUser e of
             Throws err \<Rightarrow> resetPassword_catch err w2
           | Returns _ \<Rightarrow>
               (let (u, w3) = updateResetDoc e sid ''used'' (\<lambda>s. s\<lparr>r_used := True\<rparr>) w2 in
                case u of
                  Throws err \<Rightarrow> resetPassword_catch err w3
                | Returns _ \<Rightarrow>
                    (Returns (json 200
                       [(''success'', JBool True),
                        (''message'', JStr ''Password reset successfully'')]),
                     log Info (''[resetPassword] Password reset successfully for ''
                               @ maskPhoneNumber ph)
                       (setResetTimeout 5000 sid w3)))))"

text \<open>Lines 179 to 228: the checks on the session that was read.\<close>

definition handleResetPassword_session ::
  "env \<Rightarrow> string \<Rightarrow> string \<Rightarrow> string \<Rightarrow> reset_session \<Rightarrow> world \<Rightarrow> response outcome \<times> world" where
  "handleResetPassword_session e sid otp ph sessionData w =
     (if r_phone sessionData \<noteq> ph then
        (Returns (failure 403 ''PHONE_MISMATCH'' ''Phone number does not match the session''),
         log Warn (''[resetPassword] Phone mismatch for session '' @ sid) w)
      else if r_used sessionData then
        (Returns (failure 403 ''OTP_ALREADY_USED'' ''This OTP has already been used''), w)
      else if clock_now e > r_expiresAt sessionData then
        (let (d, w1) = deleteResetDoc e sid w in
         case d of
           Throws err \<Rightarrow> (Throws err, w1)
         | Returns _ \<Rightarrow> (Returns (failure 403 ''EXPIRED_OTP'' ''OTP has expired''), w1))
      else if r_attempts sessionData \<ge> 5 then
        (let (d, w1) = deleteResetDoc e sid w in
         case d of
           Throws err \<Rightarrow> (Throws err, w1)
         | Returns _ \<Rightarrow>
             (Returns (failure 403 ''MAX_ATTEMPTS_EXCEEDED'' ''Too many failed attempts''), w1))
      else
        (let w1 = emit BcryptCompare w in
         case bcryptCompare e otp (r_otpHash sessionData) of
           Throws err \<Rightarrow> (Throws err, w1)
         | Returns False \<Rightarrow>
             (let newAttempts = r_attempts sessionData + 1;
                  (u, w2) = updateResetDoc e sid ''attempts''
                              (\<lambda>s. s\<lparr>r_attempts := newAttempts\<rparr>) w1
              in case u of
                   Throws err \<Rightarrow> (Throws err, w2)
                 | Returns _ \<Rightarrow>
                     (Returns (json 403
                        [(''success'', JBool False), (''code'', JStr ''INVALID_OTP''),
                         (''message'', JStr (''Incorrect OTP. '' @ toString (5 - newAttempts)
                                             @ '' attempts remaining'')),
                         (''attemptsRemaining'', JNum (5 - newAttempts))]), w2))
         | Returns True \<Rightarrow> handleResetPassword_update e sid ph w1))"

text \<open>handleResetPassword. An error it throws is caught by the \<^verbatim>\<open>resetPassword\<close>
  handler.\<close>

definition handleResetPassword ::
  "env \<Rightarrow> reset_request \<Rightarrow> world \<Rightarrow> response outcome \<times> world" where
  "handleResetPassword e req w =
     (if \<not> truthy (p_sessionId req) \<or> \<not> truthy (p_otp req) \<or> \<not> truthy (p_phone req) \<or>
         \<not> truthy (p_newPassword req) then
        (Returns (failure 400 ''MISSING_REQUIRED_FIELDS''
                    ''sessionId, otp, phone, and newPassword are required''), w)
      else
        (let sid = orElse (p_sessionId req) []; otp = orElse (p_otp req) [];
             ph = orElse (p_phone req) []
         in case validatePassword e (p_newPassword req) of
              Some msg \<Rightarrow> (Returns (failure 400 ''WEAK_PASSWORD'' msg), w)
            | None \<Rightarrow>
                (let w1 = log Info (''[resetPassword] Verifying OTP for password reset: ''
                                    @ maskPhoneNumber ph) w;
                     (got, w2) = getResetDoc e sid w1
                 in case got of
                      Throws err \<Rightarrow> (Throws err, w2)
                    | Returns None \<Rightarrow>
                        (Returns (failure 404 ''SESSION_NOT_FOUND'' ''Invalid or expired session''),
                         log Warn (''[resetPassword] Session not found: '' @ sid) w2)
                    | Returns (Some sessionData) \<Rightarrow>
                        handleResetPassword_session e sid otp ph sessionData w2)))"

text \<open>The callback of \<^verbatim>\<open>setTimeout\<close> (lines 238 to 244).\<close>

definition runResetTimer :: "env \<Rightarrow> nat \<times> string \<Rightarrow> world \<Rightarrow> world" where
  "runResetTimer e t w =
     (case t of (ms, sid) \<Rightarrow>
        (let w0 = w\<lparr>reset_timers := remove1 t (reset_timers w)\<rparr>;
             (d, w1) = deleteResetDoc e sid w0
         in case d of
              Throws err \<Rightarrow>
                log Error (''[resetPassword] Failed to delete session: '' @ err_message err) w1
            | Returns _ \<Rightarrow> w1))"

section \<open>The words of the specification\<close>

text \<open>A verification request as the specification describes it: a POST carrying a
  session id, a six-digit code and a phone number.\<close>

definition verification_request ::
  "verify_request \<Rightarrow> string \<Rightarrow> string \<Rightarrow> string \<Rightarrow> bool" where
  "verification_request req sid otp ph =
     (v_method req = ''POST'' \<and> v_sessionId req = Some sid \<and> sid \<noteq> [] \<and>
      v_otp req = Some otp \<and> isValidOTP otp \<and> v_phone req = Some ph \<and> ph \<noteq> [])"

fun returns :: "'a outcome \<Rightarrow> bool" where
  "returns (Returns _) = True"
| "returns (Throws _) = False"

text \<open>The Session Store answers the operations of a verification.\<close>

definition storeAnswers :: "env \<Rightarrow> bool" where
  "storeAnswers e = (storeGet e = None \<and> storeUpdate e = None \<and> storeDelete e = None)"

text \<open>The Identity Provider answers every call the success path makes: the account
  lookup finds the account or reports that there is none, the account creation (made in
  the second case) returns, and the token is minted.\<close>

definition identityProviderAnswers :: "env \<Rightarrow> bool" where
  "identityProviderAnswers e =
     (returns (authCreateToken e) \<and>
      (case authGetUser e of
         Returns _ \<Rightarrow> True
       | Throws err \<Rightarrow> err_code err = JStr ''auth/user-not-found'' \<and> returns (authCreateUser e)))"

text \<open>The transition rules of the specification, in its order, first match winning.\<close>

definition spec_order :: "session option \<Rightarrow> string \<Rightarrow> int \<Rightarrow> (session \<Rightarrow> bool) \<Rightarrow> string" where
  "spec_order so ph now codeMatches =
     (case so of
        None \<Rightarrow> ''SESSION_NOT_FOUND''
      | Some s \<Rightarrow>
          if phone s \<noteq> ph then ''PHONE_MISMATCH''
          else if used s then ''OTP_ALREADY_USED''
          else if now > expiresAt s then ''EXPIRED_OTP''
          else if attempts s \<ge> 5 then ''MAX_ATTEMPTS_EXCEEDED''
          else if \<not> codeMatches s then ''INVALID_OTP''
          else ''SUCCESS'')"

text \<open>What a response reports: its \<^verbatim>\<open>code\<close>, or success.\<close>

definition outcome_of :: "response \<Rightarrow> string" where
  "outcome_of r =
     (if status r = 200 \<and> map_of (body r) ''success'' = Some (JBool True) then ''SUCCESS''
      else case code_of r of Some (JStr c) \<Rightarrow> c | _ \<Rightarrow> [])"

text \<open>A handler stage answered with this status and code.\<close>

definition answered :: "response outcome \<Rightarrow> nat \<Rightarrow> string \<Rightarrow> bool" where
  "answered x st c =
     (\<exists>r. x = Returns r \<and> status r = st \<and> code_of r = Some (JStr c) \<and> outcome_of r = c)"


definition isAuth :: "event \<Rightarrow> bool" where
  "isAuth ev = (case ev of AuthGetUser _ \<Rightarrow> True | AuthCreateUser _ \<Rightarrow> True
                | AuthCreateToken _ \<Rightarrow> True | AuthUpdateUser _ \<Rightarrow> True | _ \<Rightarrow> False)"

text \<open>The session passed the checks that come before expiry, the attempt limit and the
  comparison.\<close>

definition live_session :: "verify_request \<Rightarrow> world \<Rightarrow> session \<Rightarrow> bool" where
  "live_session req w s =
     (v_method req = ''POST'' \<and> truthy (v_sessionId req) \<and> truthy (v_phone req) \<and>
      isValidOTP (orElse (v_otp req) []) \<and>
      map_of (otp_sessions w) (orElse (v_sessionId req) []) = Some s \<and>
      phone s = orElse (v_phone req) [] \<and> \<not> used s)"

definition isDelete :: "event \<Rightarrow> bool" where
  "isDelete ev = (case ev of StoreDelete _ _ \<Rightarrow> True | _ \<Rightarrow> False)"

definition isSet :: "event \<Rightarrow> bool" where
  "isSet ev = (case ev of StoreSet _ _ \<Rightarrow> True | _ \<Rightarrow> False)"

definition isTwilioCreate :: "event \<Rightarrow> bool" where
  "isTwilioCreate ev = (case ev of TwilioCreate _ \<Rightarrow> True | _ \<Rightarrow> False)"

section \<open>Concrete requests and states\<close>

definition sess0 :: session where
  "sess0 = \<lparr>phone = ''+2348100000000'', otpHash = ''h123456'', createdAt = 1000000,
            expiresAt = 1300000, attempts = 0, source = ''whatsapp'', used = False,
            name = None, email = None, messageSid = Some ''SM1''\<rparr>"

definition world0 :: world where
  "world0 = \<lparr>otp_sessions = [(''s1'', sess0)], password_reset_sessions = [],
             logs = [], trace = [], timers = [], reset_timers = []\<rparr>"

text \<open>A session after five failed attempts.\<close>

definition world5 :: world where
  "world5 = world0\<lparr>otp_sessions := [(''s1'', sess0\<lparr>attempts := 5\<rparr>)]\<rparr>"

text \<open>Every collaborator answers; bcrypt is stood for by a prefix.\<close>

definition env0 :: env where
  "env0 = \<lparr>clock_window = 1100000, clock_wait = 1100000, clock_now = 1100000,
           clock_sid = 1100000, randomInt = 123456, newDocId = ''s2'',
           storeQuery = None, storeGet = None, storeSet = None, storeUpdate = None,
           storeDelete = None,
           bcryptHash = (\<lambda>otp. Returns (CHR ''h'' # otp)),
           bcryptCompare = (\<lambda>otp h. Returns (h = CHR ''h'' # otp)),
           twilioConfigured = True, twilioCreate = Returns (''SM2'', ''queued''),
           authGetUser = Returns ''uid1'', authCreateUser = Returns ''uid2'',
           authCreateToken = Returns ''tok'', authUpdateUser = Returns (),
           passwordMinLength = 6\<rparr>"

definition boom :: js_error where
  "boom = \<lparr>err_message = ''unavailable'', err_code = JNull\<rparr>"

definition req0 :: verify_request where
  "req0 = \<lparr>v_method = ''POST'', v_sessionId = Some ''s1'', v_otp = Some ''123456'',
           v_phone = Some ''+2348100000000''\<rparr>"

definition sreq0 :: send_request where
  "sreq0 = \<lparr>s_method = ''POST'', s_phone = Some ''+2348100000000'', s_name = None,
            s_email = None, s_source = None\<rparr>"

text \<open>Three sessions of one phone inside the window that starts at 200000; the oldest
  leaves the window one millisecond after the window was computed.\<close>

definition world3 :: world where
  "world3 = world0\<lparr>otp_sessions :=
     [(''a'', sess0\<lparr>createdAt := 200001, expiresAt := 500001\<rparr>),
      (''b'', sess0\<lparr>createdAt := 600000, expiresAt := 900000\<rparr>),
      (''c'', sess0\<lparr>createdAt := 900000, expiresAt := 1200000\<rparr>)]\<rparr>"

text \<open>The state at the moment the session has been read (verifyOtp.js, line 77).\<close>

definition after_read :: "string \<Rightarrow> string \<Rightarrow> world \<Rightarrow> world" where
  "after_read sid ph w =
     emit (StoreGet ''otp_sessions'' sid)
       (log Info (''[verifyOtp] Verification attempt for '' @ maskPhoneNumber ph
                  @ ''. SessionID: '' @ sid) w)"

definition req_other :: verify_request where
  "req_other = req0\<lparr>v_phone := Some ''+2348100000001''\<rparr>"

text \<open>The session of \<open>world0\<close> after its expiry.\<close>

definition env_late :: env where
  "env_late = env0\<lparr>clock_now := 1300001\<rparr>"

definition req_wrong_code :: verify_request where
  "req_wrong_code = req0\<lparr>v_otp := Some ''000000''\<rparr>"

text \<open>A phone number that is not in E.164 format.\<close>

definition req_malformed_phone :: verify_request where
  "req_malformed_phone = req0\<lparr>v_phone := Some ''08100000000''\<rparr>"

definition req_short_code :: verify_request where
  "req_short_code = req0\<lparr>v_otp := Some ''12''\<rparr>"

text \<open>The token cannot be minted.\<close>

definition env_idp_down :: env where
  "env_idp_down = env0\<lparr>authCreateToken := Throws boom\<rparr>"

text \<open>The state when sendOtp has checked the rate limit (sendOtp.js, line 87).\<close>

definition after_limit :: "env \<Rightarrow> string \<Rightarrow> world \<Rightarrow> world" where
  "after_limit e ph w =
     snd (checkRateLimit e ph (log Info (''[sendOtp] OTP request for '' @ maskPhoneNumber ph) w))"

definition isFailed :: "twilio_result \<Rightarrow> bool" where
  "isFailed t = (case t of SendFailed _ _ _ \<Rightarrow> True | SendOk _ _ _ \<Rightarrow> False)"

text \<open>The store query of the rate limiter throws.\<close>

definition env_query_down :: env where
  "env_query_down = env0\<lparr>storeQuery := Some boom\<rparr>"

text \<open>The Twilio API rejects the message.\<close>

definition env_twilio_down :: env where
  "env_twilio_down = env0\<lparr>twilioCreate := Throws \<lparr>err_message = ''blocked'', err_code = JNum 21610\<rparr>\<rparr>"

text \<open>The clock advances by five milliseconds while the rate limiter queries the store.\<close>

definition env_slow :: env where
  "env_slow = env0\<lparr>clock_wait := 1100005\<rparr>"

text \<open>The state when handleRequestOTP has checked the rate limit (resetPassword.js,
  line 69).\<close>

definition after_reset_limit :: "env \<Rightarrow> string \<Rightarrow> world \<Rightarrow> world" where
  "after_reset_limit e ph w =
     snd (checkResetRateLimit e ph
            (log Info (''[resetPassword] OTP request for password reset: '' @ maskPhoneNumber ph) w))"

text \<open>The password reset session passed the checks that come before expiry, the attempt
  limit and the comparison.\<close>

definition live_reset_session :: "env \<Rightarrow> reset_request \<Rightarrow> world \<Rightarrow> reset_session \<Rightarrow> bool" where
  "live_reset_session e req w s =
     (truthy (p_sessionId req) \<and> truthy (p_otp req) \<and> truthy (p_phone req) \<and>
      truthy (p_newPassword req) \<and> validatePassword e (p_newPassword req) = None \<and>
      storeGet e = None \<and>
      map_of (password_reset_sessions w) (orElse (p_sessionId req) []) = Some s \<and>
      r_phone s = orElse (p_phone req) [] \<and> \<not> r_used s)"

text \<open>A password reset request for the session of \<open>world_reset\<close>.\<close>

definition rsess0 :: reset_session where
  "rsess0 = \<lparr>r_phone = ''+2348100000000'', r_otpHash = ''h123456'', r_createdAt = 1000000,
             r_expiresAt = 1300000, r_attempts = 0, r_used = False, r_messageSid = Some ''SM1''\<rparr>"

definition world_reset :: world where
  "world_reset = world0\<lparr>password_reset_sessions := [(''r1'', rsess0)]\<rparr>"

definition preq0 :: reset_request where
  "preq0 = \<lparr>p_sessionId = Some ''r1'', p_otp = Some ''123456'',
            p_phone = Some ''+2348100000000'', p_newPassword = Some ''secret1''\<rparr>"

text \<open>The state at the moment the password reset session has been read (resetPassword.js,
  line 166).\<close>

definition after_reset_read :: "string \<Rightarrow> string \<Rightarrow> world \<Rightarrow> world" where
  "after_reset_read sid ph w =
     emit (StoreGet ''password_reset_sessions'' sid)
       (log Info (''[resetPassword] Verifying OTP for password reset: '' @ maskPhoneNumber ph) w)"

section \<open>Projections of the state and of responses\<close>

lemma log_proj [simp]:
  "otp_sessions (log l s w) = otp_sessions w"
  "password_reset_sessions (log l s w) = password_reset_sessions w"
  "trace (log l s w) = trace w"
  "timers (log l s w) = timers w"
  "reset_timers (log l s w) = reset_timers w"
  "logs (log l s w) = logs w @ [(l, s)]"
  by (simp_all add: log_def)

lemma emit_proj [simp]:
  "otp_sessions (emit ev w) = otp_sessions w"
  "password_reset_sessions (emit ev w) = password_reset_sessions w"
  "trace (emit ev w) = trace w @ [ev]"
  "timers (emit ev w) = timers w"
  "reset_timers (emit ev w) = reset_timers w"
  "logs (emit ev w) = logs w"
  by (simp_all add: emit_def)

lemma setTimeout_proj [simp]:
  "otp_sessions (setTimeout ms sid w) = otp_sessions w"
  "password_reset_sessions (setTimeout ms sid w) = password_reset_sessions w"
  "trace (setTimeout ms sid w) = trace w"
  "timers (setTimeout ms sid w) = timers w @ [(ms, sid)]"
  "reset_timers (setTimeout ms sid w) = reset_timers w"
  "logs (setTimeout ms sid w) = logs w"
  by (simp_all add: setTimeout_def)

lemma after_read_proj [simp]:
  "otp_sessions (after_read sid ph w) = otp_sessions w"
  "password_reset_sessions (after_read sid ph w) = password_reset_sessions w"
  "trace (after_read sid ph w) = trace w @ [StoreGet ''otp_sessions'' sid]"
  "timers (after_read sid ph w) = timers w"
  by (simp_all add: after_read_def)

lemma failure_proj [simp]:
  "status (failure st c m) = st"
  "code_of (failure st c m) = Some (JStr c)"
  "outcome_of (failure st c m) = c"
  by (simp_all add: failure_def json_def code_of_def outcome_of_def)

lemma json_proj [simp]:
  "status (json st kvs) = st"
  "body (json st kvs) = kvs"
  by (simp_all add: json_def)

lemma outcome_of_success [simp]:
  "outcome_of (json 200 ((''success'', JBool True) # rest)) = ''SUCCESS''"
  by (simp add: outcome_of_def)

lemma code_of_json [simp]:
  "code_of (json st ((''success'', b) # (''code'', v) # rest)) = Some v"
  by (simp add: code_of_def)

lemma code_of_success [simp]:
  "code_of (json st ((''success'', b) # (''newUser'', v) # (''uid'', u) # (''customToken'', t)
     # (''phone'', p) # rest)) = map_of rest ''code''"
  by (simp add: code_of_def)

lemma outcome_of_code [simp]:
  "st \<noteq> 200 \<Longrightarrow> outcome_of (json st ((''success'', b) # (''code'', JStr c) # rest)) = c"
  by (simp add: outcome_of_def code_of_def)

lemma events_of_same [simp]: "events_of w w = []"
  by (simp add: events_of_def)

lemma events_of_append: "trace w' = trace w @ evs \<Longrightarrow> events_of w w' = evs"
  by (simp add: events_of_def)

lemma isValidOTP_nonempty: "isValidOTP otp \<Longrightarrow> otp \<noteq> []"
  by (auto simp: isValidOTP_def)

section \<open>The calls to the collaborators\<close>

lemma updateDoc_proj [simp]:
  "fst (updateDoc e sid fld f w) =
     (case storeUpdate e of
        Some err \<Rightarrow> Throws err
      | None \<Rightarrow>
          (case map_of (otp_sessions w) sid of
             None \<Rightarrow> Throws \<lparr>err_message = ''No document to update'', err_code = JNum 5\<rparr>
           | Some s \<Rightarrow> Returns ()))"
  "otp_sessions (snd (updateDoc e sid fld f w)) =
     (case storeUpdate e of
        Some err \<Rightarrow> otp_sessions w
      | None \<Rightarrow>
          (case map_of (otp_sessions w) sid of
             None \<Rightarrow> otp_sessions w
           | Some s \<Rightarrow> AList.update sid (f s) (otp_sessions w)))"
  "trace (snd (updateDoc e sid fld f w)) = trace w @ [StoreUpdate ''otp_sessions'' sid fld]"
  "timers (snd (updateDoc e sid fld f w)) = timers w"
  "logs (snd (updateDoc e sid fld f w)) = logs w"
  by (simp_all add: updateDoc_def Let_def split: option.splits)

lemma checkUserExists_proj [simp]:
  "fst (checkUserExists e ph w) =
     (case authGetUser e of
        Returns uid \<Rightarrow> Returns (Some uid)
      | Throws err \<Rightarrow>
          if err_code err = JStr ''auth/user-not-found'' then Returns None else Throws err)"
  "otp_sessions (snd (checkUserExists e ph w)) = otp_sessions w"
  "trace (snd (checkUserExists e ph w)) = trace w @ [AuthGetUser ph]"
  "timers (snd (checkUserExists e ph w)) = timers w"
  "logs (snd (checkUserExists e ph w)) = logs w"
  by (simp_all add: checkUserExists_def Let_def split: outcome.splits)

lemma createCustomToken_proj [simp]:
  "fst (createCustomToken e uid w) = authCreateToken e"
  "otp_sessions (snd (createCustomToken e uid w)) = otp_sessions w"
  "trace (snd (createCustomToken e uid w)) = trace w @ [AuthCreateToken uid]"
  "timers (snd (createCustomToken e uid w)) = timers w"
  "logs (snd (createCustomToken e uid w)) = logs w"
  by (simp_all add: createCustomToken_def)

lemma createUser_proj [simp]:
  "fst (createUser e ph w) = authCreateUser e"
  "otp_sessions (snd (createUser e ph w)) = otp_sessions w"
  "trace (snd (createUser e ph w)) = trace w @ [AuthCreateUser ph]"
  "timers (snd (createUser e ph w)) = timers w"
  "logs (snd (createUser e ph w)) = logs w"
  by (simp_all add: createUser_def)

section \<open>The paths through verifyOtp\<close>

lemma verifyOtp_catch_world [simp]:
  "otp_sessions (snd (verifyOtp_catch rw)) = otp_sessions (snd rw)"
  "trace (snd (verifyOtp_catch rw)) = trace (snd rw)"
  "timers (snd (verifyOtp_catch rw)) = timers (snd rw)"
  by (simp_all add: verifyOtp_catch_def split: prod.splits outcome.splits)

lemma verifyOtp_catch_Returns [simp]: "fst (verifyOtp_catch (Returns r, w)) = r"
  by (simp add: verifyOtp_catch_def)

lemma verifyOtp_catch_Throws:
  "fst rw = Throws err \<Longrightarrow>
   status (fst (verifyOtp_catch rw)) = 500 \<and>
   code_of (fst (verifyOtp_catch rw)) = Some (JStr ''INTERNAL_ERROR'')"
  by (cases rw) (simp add: verifyOtp_catch_def)

lemma verifyOtp_catch_fst:
  "fst (verifyOtp_catch rw) =
     (case fst rw of
        Returns r \<Rightarrow> r
      | Throws err \<Rightarrow>
          failure 500 ''INTERNAL_ERROR'' ''An unexpected error occurred. Please try again later.'')"
  by (cases rw) (simp add: verifyOtp_catch_def split: outcome.splits)

lemma verifyOtp_try_wellformed:
  assumes "verification_request req sid otp ph"
  shows "verifyOtp_try e req w =
     (case storeGet e of
        Some err \<Rightarrow> (Throws err, after_read sid ph w)
      | None \<Rightarrow>
          (case map_of (otp_sessions w) sid of
             None \<Rightarrow>
               (Returns (failure 404 ''SESSION_NOT_FOUND''
                           ''Invalid or expired session. Please request a new OTP.''),
                log Warn (''[verifyOtp] Session not found for '' @ maskPhoneNumber ph
                          @ ''. SessionID: '' @ sid) (after_read sid ph w))
           | Some s \<Rightarrow> verifyOtp_session e sid otp ph s (after_read sid ph w)))"
  using assms isValidOTP_nonempty[of otp]
  by (simp add: verification_request_def verifyOtp_try_def truthy_def orElse_def Let_def
        getDoc_def after_read_def split: option.splits)

lemma verifyOtp_wellformed:
  assumes "verification_request req sid otp ph"
  shows "verifyOtp e req w =
     verifyOtp_catch
       (case storeGet e of
          Some err \<Rightarrow> (Throws err, after_read sid ph w)
        | None \<Rightarrow>
            (case map_of (otp_sessions w) sid of
               None \<Rightarrow>
                 (Returns (failure 404 ''SESSION_NOT_FOUND''
                             ''Invalid or expired session. Please request a new OTP.''),
                  log Warn (''[verifyOtp] Session not found for '' @ maskPhoneNumber ph
                            @ ''. SessionID: '' @ sid) (after_read sid ph w))
             | Some s \<Rightarrow> verifyOtp_session e sid otp ph s (after_read sid ph w)))"
  using assms
  by (simp add: verifyOtp_def verifyOtp_try_wellformed[OF assms] verification_request_def)

lemma verifyOtp_found:
  assumes "verification_request req sid otp ph" "storeGet e = None"
          "map_of (otp_sessions w) sid = Some s"
  shows "verifyOtp e req w =
           verifyOtp_catch (verifyOtp_session e sid otp ph s (after_read sid ph w))"
  using assms(2,3) by (simp add: verifyOtp_wellformed[OF assms(1)])

text \<open>The checks of verifyOtp_session, one path each.\<close>

lemma answered_failure [simp]: "answered (Returns (failure st c m)) st' c' \<longleftrightarrow> st = st' \<and> c = c'"
  by (auto simp: answered_def)

lemma answered_Throws [simp]: "\<not> answered (Throws err) st c"
  by (simp add: answered_def)

lemma answered_catch:
  "answered (fst rw) st c \<Longrightarrow>
   status (fst (verifyOtp_catch rw)) = st \<and> code_of (fst (verifyOtp_catch rw)) = Some (JStr c)
   \<and> outcome_of (fst (verifyOtp_catch rw)) = c"
  by (cases rw) (auto simp: answered_def)

lemma session_mismatch:
  assumes "phone s \<noteq> ph"
  shows "answered (fst (verifyOtp_session e sid otp ph s w)) 403 ''PHONE_MISMATCH''"
    and "otp_sessions (snd (verifyOtp_session e sid otp ph s w)) = otp_sessions w"
    and "trace (snd (verifyOtp_session e sid otp ph s w)) = trace w"
    and "timers (snd (verifyOtp_session e sid otp ph s w)) = timers w"
  using assms by (simp_all add: verifyOtp_session_def Let_def)

lemma session_used:
  assumes "phone s = ph" "used s"
  shows "answered (fst (verifyOtp_session e sid otp ph s w)) 403 ''OTP_ALREADY_USED''"
    and "otp_sessions (snd (verifyOtp_session e sid otp ph s w)) = otp_sessions w"
    and "trace (snd (verifyOtp_session e sid otp ph s w)) = trace w"
    and "timers (snd (verifyOtp_session e sid otp ph s w)) = timers w"
  using assms by (simp_all add: verifyOtp_session_def Let_def)

lemma session_expired:
  assumes "phone s = ph" "\<not> used s" "clock_now e > expiresAt s"
  shows "storeDelete e = None \<Longrightarrow>
           answered (fst (verifyOtp_session e sid otp ph s w)) 403 ''EXPIRED_OTP''"
    and "storeDelete e = Some err \<Longrightarrow> fst (verifyOtp_session e sid otp ph s w) = Throws err"
    and "otp_sessions (snd (verifyOtp_session e sid otp ph s w)) =
           (if storeDelete e = None then AList.delete sid (otp_sessions w) else otp_sessions w)"
    and "trace (snd (verifyOtp_session e sid otp ph s w)) =
           trace w @ [StoreDelete ''otp_sessions'' sid]"
    and "timers (snd (verifyOtp_session e sid otp ph s w)) = timers w"
  using assms
  by (simp_all add: verifyOtp_session_def Let_def deleteDoc_def split: option.splits)

lemma session_limit:
  assumes "phone s = ph" "\<not> used s" "clock_now e \<le> expiresAt s" "attempts s \<ge> 5"
  shows "storeDelete e = None \<Longrightarrow>
           answered (fst (verifyOtp_session e sid otp ph s w)) 403 ''MAX_ATTEMPTS_EXCEEDED''"
    and "storeDelete e = Some err \<Longrightarrow> fst (verifyOtp_session e sid otp ph s w) = Throws err"
    and "otp_sessions (snd (verifyOtp_session e sid otp ph s w)) =
           (if storeDelete e = None then AList.delete sid (otp_sessions w) else otp_sessions w)"
    and "trace (snd (verifyOtp_session e sid otp ph s w)) =
           trace w @ [StoreDelete ''otp_sessions'' sid]"
    and "timers (snd (verifyOtp_session e sid otp ph s w)) = timers w"
  using assms
  by (simp_all add: verifyOtp_session_def Let_def deleteDoc_def split: option.splits)

lemma session_compare:
  assumes "phone s = ph" "\<not> used s" "clock_now e \<le> expiresAt s" "attempts s < 5"
  shows "verifyOtp_session e sid otp ph s w = verifyOtp_compare e sid otp ph s w"
  using assms by (simp add: verifyOtp_session_def Let_def)

lemma compare_throws:
  assumes "bcryptCompare e otp (otpHash s) = Throws err"
  shows "verifyOtp_compare e sid otp ph s w = (Throws err, emit BcryptCompare w)"
  using assms by (simp add: verifyOtp_compare_def Let_def)

lemma compare_false:
  assumes "bcryptCompare e otp (otpHash s) = Returns False"
  shows "storeUpdate e = None \<Longrightarrow> map_of (otp_sessions w) sid = Some s' \<Longrightarrow>
           answered (fst (verifyOtp_compare e sid otp ph s w)) 403 ''INVALID_OTP''"
    and "storeUpdate e = None \<Longrightarrow> map_of (otp_sessions w) sid = Some s' \<Longrightarrow>
           otp_sessions (snd (verifyOtp_compare e sid otp ph s w)) =
             AList.update sid (s'\<lparr>attempts := attempts s + 1\<rparr>) (otp_sessions w)"
    and "storeUpdate e = Some err \<Longrightarrow>
           fst (verifyOtp_compare e sid otp ph s w) = Throws err \<and>
           otp_sessions (snd (verifyOtp_compare e sid otp ph s w)) = otp_sessions w"
    and "trace (snd (verifyOtp_compare e sid otp ph s w)) =
           trace w @ [BcryptCompare, StoreUpdate ''otp_sessions'' sid ''attempts'']"
    and "timers (snd (verifyOtp_compare e sid otp ph s w)) = timers w"
  using assms
  by (simp_all add: verifyOtp_compare_def Let_def updateDoc_def answered_def
        split: option.splits)

lemma compare_true:
  assumes "bcryptCompare e otp (otpHash s) = Returns True"
  shows "verifyOtp_compare e sid otp ph s w = verifyOtp_success e sid ph s (emit BcryptCompare w)"
  using assms by (simp add: verifyOtp_compare_def Let_def)

text \<open>The success path: what it writes, schedules, calls and answers.\<close>

lemma success_world:
  "otp_sessions (snd (verifyOtp_success e sid ph s w)) =
     (case storeUpdate e of
        Some err \<Rightarrow> otp_sessions w
      | None \<Rightarrow>
          (case map_of (otp_sessions w) sid of
             None \<Rightarrow> otp_sessions w
           | Some s' \<Rightarrow> AList.update sid (s'\<lparr>used := True\<rparr>) (otp_sessions w)))"
  "timers (snd (verifyOtp_success e sid ph s w)) =
     (if storeUpdate e = None \<and> map_of (otp_sessions w) sid \<noteq> None
      then timers w @ [(5000, sid)] else timers w)"
  by (simp_all add: verifyOtp_success_def Let_def split_def
        split: option.splits outcome.splits)

lemma success_trace:
  "\<exists>evs. trace (snd (verifyOtp_success e sid ph s w)) =
           trace w @ StoreUpdate ''otp_sessions'' sid ''used'' # evs \<and>
         list_all isAuth evs \<and>
         (storeUpdate e = None \<and> map_of (otp_sessions w) sid \<noteq> None \<longrightarrow>
            evs \<noteq> [] \<and> hd evs = AuthGetUser ph)"
  by (simp add: verifyOtp_success_def Let_def split_def isAuth_def
        split: option.splits outcome.splits)

lemma returns_iff: "returns x \<longleftrightarrow> (\<exists>v. x = Returns v)"
  by (cases x) auto

lemma not_returns_iff: "\<not> returns x \<longleftrightarrow> (\<exists>err. x = Throws err)"
  by (cases x) auto

lemma success_answer:
  assumes "storeUpdate e = None" "map_of (otp_sessions w) sid = Some s'"
  shows "identityProviderAnswers e \<Longrightarrow>
           \<exists>r. fst (verifyOtp_success e sid ph s w) = Returns r \<and> status r = 200 \<and>
               outcome_of r = ''SUCCESS'' \<and> code_of r = None"
    and "\<not> identityProviderAnswers e \<Longrightarrow> \<exists>err. fst (verifyOtp_success e sid ph s w) = Throws err"
  using assms
  by (auto simp add: verifyOtp_success_def Let_def split_def identityProviderAnswers_def
        returns_iff split: option.splits outcome.splits)

lemma compare_trace:
  "\<exists>evs. trace (snd (verifyOtp_compare e sid otp ph s w)) = trace w @ BcryptCompare # evs \<and>
         list_all (\<lambda>ev. \<not> isDelete ev) evs"
proof (cases "bcryptCompare e otp (otpHash s)")
  case (Throws err)
  then show ?thesis by (simp add: compare_throws)
next
  case (Returns b)
  show ?thesis
  proof (cases b)
    case True
    obtain evs where "trace (snd (verifyOtp_success e sid ph s (emit BcryptCompare w))) =
        trace (emit BcryptCompare w) @ StoreUpdate ''otp_sessions'' sid ''used'' # evs"
        and "list_all isAuth evs"
      using success_trace[of e sid ph s "emit BcryptCompare w"] by blast
    moreover have "list_all (\<lambda>ev. \<not> isDelete ev) evs"
      using \<open>list_all isAuth evs\<close>
      by (auto simp: list_all_iff isAuth_def isDelete_def split: event.splits)
    ultimately show ?thesis using Returns True
      by (simp add: compare_true isDelete_def)
  next
    case False
    then show ?thesis using Returns
      by (simp add: compare_false(4) isDelete_def)
  qed
qed

lemma compare_timers:
  "timers (snd (verifyOtp_compare e sid otp ph s w)) =
     (if bcryptCompare e otp (otpHash s) = Returns True \<and> storeUpdate e = None \<and>
         map_of (otp_sessions w) sid \<noteq> None
      then timers w @ [(5000, sid)] else timers w)"
proof (cases "bcryptCompare e otp (otpHash s)")
  case (Throws err)
  then show ?thesis by (simp add: compare_throws)
next
  case (Returns b)
  then show ?thesis
    by (cases b) (simp_all add: compare_true compare_false(5) success_world)
qed

text \<open>Requests that validation rejects leave the state as it is.\<close>

lemma verifyOtp_rejected:
  assumes "v_method req \<noteq> ''POST'' \<or> \<not> truthy (v_sessionId req) \<or> \<not> truthy (v_otp req)
           \<or> \<not> truthy (v_phone req) \<or> \<not> isValidOTP (orElse (v_otp req) [])"
  shows "snd (verifyOtp e req w) = w"
    and "v_method req = ''POST'' \<Longrightarrow>
           status (fst (verifyOtp e req w)) = 400 \<and>
           code_of (fst (verifyOtp e req w)) \<in>
             {Some (JStr ''MISSING_REQUIRED_FIELDS''), Some (JStr ''INVALID_OTP_FORMAT'')}"
  using assms
  by (auto simp add: verifyOtp_def verifyOtp_try_def verifyOtp_catch_def Let_def)

lemma verification_requestI:
  assumes "v_method req = ''POST''" "truthy (v_sessionId req)" "truthy (v_otp req)"
          "truthy (v_phone req)" "isValidOTP (orElse (v_otp req) [])"
  shows "verification_request req (orElse (v_sessionId req) []) (orElse (v_otp req) [])
           (orElse (v_phone req) [])"
  using assms
  by (auto simp add: verification_request_def truthy_def orElse_def split: option.splits)

lemma verification_requestD:
  assumes "verification_request req sid otp ph"
  shows "v_method req = ''POST''" "truthy (v_sessionId req)" "truthy (v_otp req)"
        "truthy (v_phone req)" "orElse (v_sessionId req) [] = sid"
        "orElse (v_otp req) [] = otp" "orElse (v_phone req) [] = ph" "isValidOTP otp"
  using assms isValidOTP_nonempty[of otp]
  by (auto simp add: verification_request_def truthy_def orElse_def)

section \<open>The stages of sendOtp\<close>

lemma setDoc_proj [simp]:
  "fst (setDoc e sid s w) = (case storeSet e of Some err \<Rightarrow> Throws err | None \<Rightarrow> Returns ())"
  "otp_sessions (snd (setDoc e sid s w)) =
     (case storeSet e of Some err \<Rightarrow> otp_sessions w | None \<Rightarrow> AList.update sid s (otp_sessions w))"
  "password_reset_sessions (snd (setDoc e sid s w)) = password_reset_sessions w"
  "trace (snd (setDoc e sid s w)) = trace w @ [StoreSet ''otp_sessions'' sid]"
  "timers (snd (setDoc e sid s w)) = timers w"
  "logs (snd (setDoc e sid s w)) = logs w"
  by (simp_all add: setDoc_def Let_def split: option.splits)

lemma setResetDoc_proj [simp]:
  "fst (setResetDoc e sid s w) = (case storeSet e of Some err \<Rightarrow> Throws err | None \<Rightarrow> Returns ())"
  "otp_sessions (snd (setResetDoc e sid s w)) = otp_sessions w"
  "password_reset_sessions (snd (setResetDoc e sid s w)) =
     (case storeSet e of Some err \<Rightarrow> password_reset_sessions w
      | None \<Rightarrow> AList.update sid s (password_reset_sessions w))"
  "trace (snd (setResetDoc e sid s w)) = trace w @ [StoreSet ''password_reset_sessions'' sid]"
  "timers (snd (setResetDoc e sid s w)) = timers w"
  "logs (snd (setResetDoc e sid s w)) = logs w"
  by (simp_all add: setResetDoc_def Let_def split: option.splits)

text \<open>The send fails exactly when the client is configured and the Twilio API throws.\<close>

lemma sendSMSOTP_fst:
  "fst (sendSMSOTP e p otp w) =
     (if \<not> twilioConfigured e
      then SendOk (''SM_TEST_'' @ toString (clock_sid e)) ''queued'' ''sms-test''
      else case twilioCreate e of
             Returns (sid, st) \<Rightarrow> SendOk sid st ''sms''
           | Throws err \<Rightarrow>
               SendFailed (if falsy (err_code err) then JStr ''TWILIO_ERROR'' else err_code err)
                 (orElse (lookupErrorMessage (err_code err))
                    ''Failed to send verification code. Please try again.'') ''sms'')"
  by (simp add: sendSMSOTP_def Let_def split: outcome.splits prod.splits)

lemma sendSMSOTP_proj [simp]:
  "otp_sessions (snd (sendSMSOTP e p otp w)) = otp_sessions w"
  "password_reset_sessions (snd (sendSMSOTP e p otp w)) = password_reset_sessions w"
  "trace (snd (sendSMSOTP e p otp w)) =
     trace w @ (if twilioConfigured e then [TwilioCreate p] else [])"
  "timers (snd (sendSMSOTP e p otp w)) = timers w"
  by (simp_all add: sendSMSOTP_def Let_def split: outcome.splits prod.splits)

lemma sendSMSOTP_logs: "set (logs w) \<subseteq> set (logs (snd (sendSMSOTP e p otp w)))"
  by (auto simp add: sendSMSOTP_def Let_def split: outcome.splits prod.splits)

lemma sendWhatsAppOTP_fst: "fst (sendWhatsAppOTP e p otp w) = fst (sendSMSOTP e p otp w)"
  by (simp add: sendWhatsAppOTP_def sendSMSOTP_fst)

lemma sendWhatsAppOTP_proj [simp]:
  "otp_sessions (snd (sendWhatsAppOTP e p otp w)) = otp_sessions w"
  "password_reset_sessions (snd (sendWhatsAppOTP e p otp w)) = password_reset_sessions w"
  "trace (snd (sendWhatsAppOTP e p otp w)) =
     trace w @ (if twilioConfigured e then [TwilioCreate p] else [])"
  "timers (snd (sendWhatsAppOTP e p otp w)) = timers w"
  by (simp_all add: sendWhatsAppOTP_def)

lemma sendWhatsAppOTP_logs: "set (logs w) \<subseteq> set (logs (snd (sendWhatsAppOTP e p otp w)))"
  using sendSMSOTP_logs[of "log Info ''[Twilio] WhatsApp not yet configured, using SMS'' w" e p otp]
  by (auto simp add: sendWhatsAppOTP_def)

lemma checkRateLimit_fst:
  "fst (checkRateLimit e ph w) =
     (case storeQuery e of
        Some err \<Rightarrow> Allowed
      | None \<Rightarrow>
          (let recentSessions =
                 queryByPhoneSince (otp_sessions w) ph (clock_window e - 15 * 60 * 1000)
           in if length recentSessions \<ge> 3
              then Limited (ceil_div (createdAt (recentSessions ! 0) + 15 * 60 * 1000 - clock_wait e)
                              60000)
              else Allowed))"
  by (simp add: checkRateLimit_def Let_def split: option.splits)

lemma checkRateLimit_proj [simp]:
  "otp_sessions (snd (checkRateLimit e ph w)) = otp_sessions w"
  "password_reset_sessions (snd (checkRateLimit e ph w)) = password_reset_sessions w"
  "trace (snd (checkRateLimit e ph w)) =
     trace w @ [StoreQuery ''otp_sessions'' ph (clock_window e - 15 * 60 * 1000)]"
  "timers (snd (checkRateLimit e ph w)) = timers w"
  by (simp_all add: checkRateLimit_def Let_def split: option.splits)

lemma checkResetRateLimit_fst:
  "fst (checkResetRateLimit e ph w) =
     (case storeQuery e of
        Some err \<Rightarrow> Allowed
      | None \<Rightarrow>
          (let recentResets =
                 queryResetByPhoneSince (password_reset_sessions w) ph
                   (clock_window e - 15 * 60 * 1000)
           in if length recentResets \<ge> 3
              then Limited (ceil_div (r_createdAt (recentResets ! 0) + 15 * 60 * 1000
                                      - clock_wait e) 60000)
              else Allowed))"
  by (simp add: checkResetRateLimit_def Let_def split: option.splits)

lemma checkResetRateLimit_proj [simp]:
  "otp_sessions (snd (checkResetRateLimit e ph w)) = otp_sessions w"
  "password_reset_sessions (snd (checkResetRateLimit e ph w)) = password_reset_sessions w"
  "trace (snd (checkResetRateLimit e ph w)) =
     trace w @ [StoreQuery ''password_reset_sessions'' ph (clock_window e - 15 * 60 * 1000)]"
  "timers (snd (checkResetRateLimit e ph w)) = timers w"
  by (simp_all add: checkResetRateLimit_def Let_def split: option.splits)

lemma sendOtp_catch_world [simp]:
  "otp_sessions (snd (sendOtp_catch rw)) = otp_sessions (snd rw)"
  "password_reset_sessions (snd (sendOtp_catch rw)) = password_reset_sessions (snd rw)"
  "trace (snd (sendOtp_catch rw)) = trace (snd rw)"
  "timers (snd (sendOtp_catch rw)) = timers (snd rw)"
  by (simp_all add: sendOtp_catch_def split: prod.splits outcome.splits)

lemma sendOtp_catch_fst:
  "fst (sendOtp_catch rw) =
     (case fst rw of
        Returns r \<Rightarrow> r
      | Throws err \<Rightarrow>
          failure 500 ''INTERNAL_ERROR'' ''An unexpected error occurred. Please try again later.'')"
  by (cases rw) (simp add: sendOtp_catch_def split: outcome.splits)

lemma sendOtp_catch_logs: "set (logs (snd rw)) \<subseteq> set (logs (snd (sendOtp_catch rw)))"
  by (cases rw) (auto simp add: sendOtp_catch_def split: outcome.splits)

text \<open>sendOtp_issue: what it writes and calls.\<close>

lemmas issue_unfold = sendOtp_issue_def Let_def split_def sendSMSOTP_fst sendWhatsAppOTP_fst

lemma issue_world [simp]:
  "password_reset_sessions (snd (sendOtp_issue e req ph w)) = password_reset_sessions w"
  "timers (snd (sendOtp_issue e req ph w)) = timers w"
  by (simp_all add: issue_unfold
        split: outcome.splits twilio_result.splits option.splits if_splits)

lemma issue_store_unchanged_if_send_fails:
  "twilioConfigured e \<Longrightarrow> twilioCreate e = Throws err \<Longrightarrow>
   otp_sessions (snd (sendOtp_issue e req ph w)) = otp_sessions w"
  by (simp add: issue_unfold split: outcome.splits)

lemma issue_keeps:
  "map_of (otp_sessions w) i = Some s \<Longrightarrow>
   map_of (otp_sessions (snd (sendOtp_issue e req ph w))) i \<noteq> None"
  by (simp add: issue_unfold AList.update_conv'
        split: outcome.splits twilio_result.splits option.splits if_splits)

lemma issue_trace:
  "\<exists>evs. trace (snd (sendOtp_issue e req ph w)) = trace w @ BcryptHash # evs \<and>
         list_all (\<lambda>ev. \<not> isDelete ev) evs \<and>
         (twilioConfigured e \<and> \<not> returns (twilioCreate e) \<longrightarrow>
            list_all (\<lambda>ev. \<not> isSet ev) evs \<and>
            ((\<exists>ev \<in> set evs. isTwilioCreate ev) \<longleftrightarrow> returns (bcryptHash e (generateSecureOTP e))))"
  by (auto simp add: issue_unfold isDelete_def isSet_def isTwilioCreate_def
        split: outcome.splits twilio_result.splits option.splits if_splits)

lemma issue_answer:
  "fst (sendOtp_issue e req ph w) = Returns r \<Longrightarrow> status r = 200 \<or> status r = 500"
  "fst (sendOtp_issue e req ph w) = Returns r \<Longrightarrow> status r = 200 \<Longrightarrow>
     map_of (body r) ''testOtp'' = Some (JStr (generateSecureOTP e))"
  "twilioConfigured e \<Longrightarrow> twilioCreate e = Throws err \<Longrightarrow>
   fst (sendOtp_issue e req ph w) = Returns r \<Longrightarrow>
     status r = 500 \<and>
     code_of r = Some (if falsy (err_code err) then JStr ''TWILIO_ERROR'' else err_code err)"
  by (auto simp add: issue_unfold
        split: outcome.splits twilio_result.splits option.splits if_splits)

lemma issue_log:
  "(Info, ''[sendOtp] TEST MODE - OTP: '' @ generateSecureOTP e)
     \<in> set (logs (snd (sendOtp_issue e req ph w)))"
proof -
  let ?l = "(Info, ''[sendOtp] TEST MODE - OTP: '' @ generateSecureOTP e)"
  let ?w2 = "emit BcryptHash
               (log Info (''[sendOtp] TEST MODE - OTP: '' @ generateSecureOTP e)
                  (log Info (''[sendOtp] Generated OTP for '' @ maskPhoneNumber ph) w))"
  have l: "?l \<in> set (logs ?w2)" by simp
  have a: "?l \<in> set (logs (snd (sendSMSOTP e ph (generateSecureOTP e) ?w2)))"
    using sendSMSOTP_logs[of ?w2 e ph "generateSecureOTP e"] l by blast
  have b: "?l \<in> set (logs (snd (sendWhatsAppOTP e ph (generateSecureOTP e) ?w2)))"
    using sendWhatsAppOTP_logs[of ?w2 e ph "generateSecureOTP e"] l by blast
  show ?thesis
  proof (cases "bcryptHash e (generateSecureOTP e)")
    case (Throws err)
    then show ?thesis by (simp add: sendOtp_issue_def Let_def)
  next
    case (Returns h)
    then show ?thesis using a b
      by (simp add: sendOtp_issue_def Let_def split_def
            split: twilio_result.splits outcome.splits option.splits)
  qed
qed

lemma after_limit_proj [simp]:
  "otp_sessions (after_limit e ph w) = otp_sessions w"
  "password_reset_sessions (after_limit e ph w) = password_reset_sessions w"
  "trace (after_limit e ph w) =
     trace w @ [StoreQuery ''otp_sessions'' ph (clock_window e - 15 * 60 * 1000)]"
  "timers (after_limit e ph w) = timers w"
  by (simp_all add: after_limit_def)

lemma checkRateLimit_fst_log [simp]:
  "fst (checkRateLimit e ph (log l s w)) = fst (checkRateLimit e ph w)"
  by (simp add: checkRateLimit_fst split: option.splits)

text \<open>sendOtp on a request that passes validation.\<close>

lemma sendOtp_valid:
  assumes "s_method req = ''POST''" "s_phone req = Some ph" "isValidPhoneNumber ph"
  shows "sendOtp e req w =
     sendOtp_catch
       (case fst (checkRateLimit e ph w) of
          Limited waitMinutes \<Rightarrow>
            (Returns (json 429
               [(''success'', JBool False), (''code'', JStr ''RATE_LIMIT_EXCEEDED''),
                (''message'', JStr (''Too many OTP requests. Please try again in ''
                                    @ toString waitMinutes @ '' minutes.'')),
                (''retryAfter'', JNum (waitMinutes * 60))]),
             log Warn (''[sendOtp] Rate limit exceeded for '' @ maskPhoneNumber ph)
               (after_limit e ph w))
        | Allowed \<Rightarrow> sendOtp_issue e req ph (after_limit e ph w))"
proof -
  have "ph \<noteq> []" using assms(3) by (auto simp: isValidPhoneNumber_def)
  then show ?thesis using assms
    by (simp add: sendOtp_def sendOtp_try_def truthy_def orElse_def Let_def split_def
          after_limit_def split: rate_limit.splits)
qed

lemma sendOtp_invalid:
  assumes "s_method req \<noteq> ''POST'' \<or> \<not> truthy (s_phone req) \<or>
           \<not> isValidPhoneNumber (orElse (s_phone req) [])"
  shows "snd (sendOtp e req w) = w"
    and "status (fst (sendOtp e req w)) = 405 \<or> status (fst (sendOtp e req w)) = 400"
  using assms
  by (auto simp add: sendOtp_def sendOtp_try_def sendOtp_catch_def Let_def)

lemma send_requestI:
  assumes "s_method req = ''POST''" "truthy (s_phone req)"
          "isValidPhoneNumber (orElse (s_phone req) [])"
  shows "s_phone req = Some (orElse (s_phone req) [])"
  using assms by (auto simp: truthy_def orElse_def split: option.splits)


section \<open>The stages of handleRequestOTP\<close>

lemmas reset_issue_unfold = handleRequestOTP_issue_def Let_def split_def sendSMSOTP_fst
  sendWhatsAppOTP_fst

lemma reset_issue_world [simp]:
  "otp_sessions (snd (handleRequestOTP_issue e ph w)) = otp_sessions w"
  "timers (snd (handleRequestOTP_issue e ph w)) = timers w"
  by (simp_all add: reset_issue_unfold
        split: outcome.splits twilio_result.splits option.splits)

lemma reset_issue_store_unchanged_if_send_fails:
  "twilioConfigured e \<Longrightarrow> twilioCreate e = Throws err \<Longrightarrow>
   password_reset_sessions (snd (handleRequestOTP_issue e ph w)) = password_reset_sessions w"
  by (simp add: reset_issue_unfold split: outcome.splits)

lemma reset_issue_keeps:
  "map_of (password_reset_sessions w) i = Some s \<Longrightarrow>
   map_of (password_reset_sessions (snd (handleRequestOTP_issue e ph w))) i \<noteq> None"
  by (simp add: reset_issue_unfold AList.update_conv'
        split: outcome.splits twilio_result.splits option.splits)

lemma reset_issue_trace:
  "\<exists>evs. trace (snd (handleRequestOTP_issue e ph w)) = trace w @ BcryptHash # evs \<and>
         list_all (\<lambda>ev. \<not> isDelete ev) evs \<and>
         (twilioConfigured e \<and> \<not> returns (twilioCreate e) \<longrightarrow>
            list_all (\<lambda>ev. \<not> isSet ev) evs \<and>
            ((\<exists>ev \<in> set evs. isTwilioCreate ev) \<longleftrightarrow> returns (bcryptHash e (generateSecureOTP e))))"
  by (auto simp add: reset_issue_unfold isDelete_def isSet_def isTwilioCreate_def
        split: outcome.splits twilio_result.splits option.splits)

lemma reset_issue_answer:
  "fst (handleRequestOTP_issue e ph w) = Returns r \<Longrightarrow> status r = 200 \<or> status r = 500"
  "twilioConfigured e \<Longrightarrow> twilioCreate e = Throws err \<Longrightarrow>
   fst (handleRequestOTP_issue e ph w) = Returns r \<Longrightarrow> status r = 500"
  "twilioConfigured e \<Longrightarrow> twilioCreate e = Throws err \<Longrightarrow>
   returns (bcryptHash e (generateSecureOTP e)) \<Longrightarrow>
   \<exists>r. fst (handleRequestOTP_issue e ph w) = Returns r"
  by (auto simp add: reset_issue_unfold returns_iff
        split: outcome.splits twilio_result.splits option.splits)

lemma after_reset_limit_proj [simp]:
  "otp_sessions (after_reset_limit e ph w) = otp_sessions w"
  "password_reset_sessions (after_reset_limit e ph w) = password_reset_sessions w"
  "trace (after_reset_limit e ph w) =
     trace w @ [StoreQuery ''password_reset_sessions'' ph (clock_window e - 15 * 60 * 1000)]"
  "timers (after_reset_limit e ph w) = timers w"
  by (simp_all add: after_reset_limit_def)

lemma checkResetRateLimit_fst_log [simp]:
  "fst (checkResetRateLimit e ph (log l s w)) = fst (checkResetRateLimit e ph w)"
  by (simp add: checkResetRateLimit_fst split: option.splits)

lemma handleRequestOTP_invalid:
  assumes "\<not> truthy pf \<or> \<not> isValidPhoneNumber (orElse pf [])"
  shows "handleRequestOTP e pf w =
           (Returns (failure 400 ''INVALID_PHONE_FORMAT''
                       ''Phone number is required and must be in E.164 format''), w)"
  using assms by (auto simp add: handleRequestOTP_def Let_def)

lemma handleRequestOTP_valid:
  assumes "truthy pf" "isValidPhoneNumber (orElse pf [])"
  shows "handleRequestOTP e pf w =
     (let ph = orElse pf []; w2 = after_reset_limit e ph w in
      case fst (checkResetRateLimit e ph w) of
        Limited waitMinutes \<Rightarrow>
          (Returns (json 429
             [(''success'', JBool False), (''code'', JStr ''RATE_LIMIT_EXCEEDED''),
              (''message'', JStr (''Too many password reset requests. Try again in ''
                                  @ toString waitMinutes @ '' minutes.'')),
              (''retryAfter'', JNum (waitMinutes * 60))]),
           log Warn (''[resetPassword] Rate limit exceeded for '' @ maskPhoneNumber ph) w2)
      | Allowed \<Rightarrow>
          (case authGetUser e of
             Throws err \<Rightarrow>
               if err_code err = JStr ''auth/user-not-found'' then
                 (Returns (json 200
                    [(''success'', JBool True),
                     (''message'', JStr ''If an account with this phone number exists, an OTP has been sent.'')]),
                  log Warn (''[resetPassword] User not found: '' @ maskPhoneNumber ph)
                    (emit (AuthGetUser ph) w2))
               else (Throws err, emit (AuthGetUser ph) w2)
           | Returns u \<Rightarrow> handleRequestOTP_issue e ph (emit (AuthGetUser ph) w2)))"
  using assms
  by (simp add: handleRequestOTP_def Let_def split_def after_reset_limit_def
        split: rate_limit.splits outcome.splits)

lemma sendOtp_send_made:
  assumes "s_method req = ''POST''" "s_phone req = Some ph" "isValidPhoneNumber ph"
      and "fst (checkRateLimit e ph w) = Allowed"
      and "twilioConfigured e" "\<not> returns (twilioCreate e)"
      and "returns (bcryptHash e (generateSecureOTP e))"
  shows "\<exists>ev \<in> set (events_of w (snd (sendOtp e req w))). isTwilioCreate ev"
proof -
  let ?w2 = "after_limit e ph w"
  obtain evs where t: "trace (snd (sendOtp_issue e req ph ?w2)) = trace ?w2 @ BcryptHash # evs"
      and "\<exists>ev \<in> set evs. isTwilioCreate ev"
    using issue_trace[of e req ph ?w2] assms(5,6,7) by blast
  then show ?thesis using assms(4)
    by (auto simp add: sendOtp_valid[OF assms(1,2,3)] events_of_def)
qed

section \<open>The paths through handleResetPassword\<close>

lemma setResetTimeout_proj [simp]:
  "otp_sessions (setResetTimeout ms sid w) = otp_sessions w"
  "password_reset_sessions (setResetTimeout ms sid w) = password_reset_sessions w"
  "trace (setResetTimeout ms sid w) = trace w"
  "timers (setResetTimeout ms sid w) = timers w"
  "reset_timers (setResetTimeout ms sid w) = reset_timers w @ [(ms, sid)]"
  by (simp_all add: setResetTimeout_def)

lemma deleteResetDoc_proj [simp]:
  "fst (deleteResetDoc e sid w) = (case storeDelete e of Some err \<Rightarrow> Throws err | None \<Rightarrow> Returns ())"
  "otp_sessions (snd (deleteResetDoc e sid w)) = otp_sessions w"
  "password_reset_sessions (snd (deleteResetDoc e sid w)) =
     (case storeDelete e of Some err \<Rightarrow> password_reset_sessions w
      | None \<Rightarrow> AList.delete sid (password_reset_sessions w))"
  "trace (snd (deleteResetDoc e sid w)) = trace w @ [StoreDelete ''password_reset_sessions'' sid]"
  "timers (snd (deleteResetDoc e sid w)) = timers w"
  "reset_timers (snd (deleteResetDoc e sid w)) = reset_timers w"
  by (simp_all add: deleteResetDoc_def Let_def split: option.splits)

lemma updateResetDoc_proj [simp]:
  "fst (updateResetDoc e sid fld f w) =
     (case storeUpdate e of
        Some err \<Rightarrow> Throws err
      | None \<Rightarrow>
          (case map_of (password_reset_sessions w) sid of
             None \<Rightarrow> Throws \<lparr>err_message = ''No document to update'', err_code = JNum 5\<rparr>
           | Some s \<Rightarrow> Returns ()))"
  "otp_sessions (snd (updateResetDoc e sid fld f w)) = otp_sessions w"
  "password_reset_sessions (snd (updateResetDoc e sid fld f w)) =
     (case storeUpdate e of
        Some err \<Rightarrow> password_reset_sessions w
      | None \<Rightarrow>
          (case map_of (password_reset_sessions w) sid of
             None \<Rightarrow> password_reset_sessions w
           | Some s \<Rightarrow> AList.update sid (f s) (password_reset_sessions w)))"
  "trace (snd (updateResetDoc e sid fld f w)) =
     trace w @ [StoreUpdate ''password_reset_sessions'' sid fld]"
  "timers (snd (updateResetDoc e sid fld f w)) = timers w"
  "reset_timers (snd (updateResetDoc e sid fld f w)) = reset_timers w"
  by (simp_all add: updateResetDoc_def Let_def split: option.splits)

lemma resetPassword_catch_proj [simp]:
  "otp_sessions (snd (resetPassword_catch err w)) = otp_sessions w"
  "password_reset_sessions (snd (resetPassword_catch err w)) = password_reset_sessions w"
  "trace (snd (resetPassword_catch err w)) = trace w"
  "timers (snd (resetPassword_catch err w)) = timers w"
  "reset_timers (snd (resetPassword_catch err w)) = reset_timers w"
  by (simp_all add: resetPassword_catch_def Let_def)

text \<open>The password update: it schedules the deletion exactly when it marked the session
  used, and it deletes nothing.\<close>

lemma reset_update_world:
  "otp_sessions (snd (handleResetPassword_update e sid ph w)) = otp_sessions w"
  "timers (snd (handleResetPassword_update e sid ph w)) = timers w"
  "reset_timers (snd (handleResetPassword_update e sid ph w)) =
     (if returns (authGetUser e) \<and> returns (authUpdateUser e) \<and> storeUpdate e = None \<and>
         map_of (password_reset_sessions w) sid \<noteq> None
      then reset_timers w @ [(5000, sid)] else reset_timers w)"
  "password_reset_sessions (snd (handleResetPassword_update e sid ph w)) =
     (if returns (authGetUser e) \<and> returns (authUpdateUser e) \<and> storeUpdate e = None
      then case map_of (password_reset_sessions w) sid of
             None \<Rightarrow> password_reset_sessions w
           | Some s \<Rightarrow> AList.update sid (s\<lparr>r_used := True\<rparr>) (password_reset_sessions w)
      else password_reset_sessions w)"
  by (simp_all add: handleResetPassword_update_def Let_def split_def
        split: outcome.splits option.splits)

lemma reset_update_trace:
  "\<exists>evs. trace (snd (handleResetPassword_update e sid ph w)) = trace w @ evs \<and>
         list_all (\<lambda>ev. \<not> isDelete ev) evs"
  by (simp add: handleResetPassword_update_def Let_def split_def isDelete_def
        split: outcome.splits option.splits)

lemma reset_session_quiet:
  assumes "r_phone s \<noteq> ph \<or> r_used s"
  shows "otp_sessions (snd (handleResetPassword_session e sid otp ph s w)) = otp_sessions w"
    and "password_reset_sessions (snd (handleResetPassword_session e sid otp ph s w)) =
           password_reset_sessions w"
    and "trace (snd (handleResetPassword_session e sid otp ph s w)) = trace w"
    and "timers (snd (handleResetPassword_session e sid otp ph s w)) = timers w"
    and "reset_timers (snd (handleResetPassword_session e sid otp ph s w)) = reset_timers w"
  using assms by (auto simp add: handleResetPassword_session_def)

lemma reset_session_delete:
  assumes "r_phone s = ph" "\<not> r_used s" "clock_now e > r_expiresAt s \<or> r_attempts s \<ge> 5"
  shows "otp_sessions (snd (handleResetPassword_session e sid otp ph s w)) = otp_sessions w"
    and "trace (snd (handleResetPassword_session e sid otp ph s w)) =
           trace w @ [StoreDelete ''password_reset_sessions'' sid]"
    and "timers (snd (handleResetPassword_session e sid otp ph s w)) = timers w"
    and "reset_timers (snd (handleResetPassword_session e sid otp ph s w)) = reset_timers w"
proof -
  have "snd (handleResetPassword_session e sid otp ph s w) =
          snd (case fst (deleteResetDoc e sid w) of
                 Throws err \<Rightarrow> (Throws err, snd (deleteResetDoc e sid w))
               | Returns u \<Rightarrow> (Returns (failure 403 [] []), snd (deleteResetDoc e sid w)))"
    using assms
    by (auto simp add: handleResetPassword_session_def Let_def split_def split: outcome.splits)
  then have e: "snd (handleResetPassword_session e sid otp ph s w) = snd (deleteResetDoc e sid w)"
    by (simp split: outcome.splits)
  show "otp_sessions (snd (handleResetPassword_session e sid otp ph s w)) = otp_sessions w"
       "trace (snd (handleResetPassword_session e sid otp ph s w)) =
           trace w @ [StoreDelete ''password_reset_sessions'' sid]"
       "timers (snd (handleResetPassword_session e sid otp ph s w)) = timers w"
       "reset_timers (snd (handleResetPassword_session e sid otp ph s w)) = reset_timers w"
    by (simp_all add: e)
qed

lemma reset_session_compare:
  assumes "r_phone s = ph" "\<not> r_used s" "clock_now e \<le> r_expiresAt s" "r_attempts s < 5"
  shows "snd (handleResetPassword_session e sid otp ph s w) =
     (case bcryptCompare e otp (r_otpHash s) of
        Throws err \<Rightarrow> emit BcryptCompare w
      | Returns b \<Rightarrow>
          if b then snd (handleResetPassword_update e sid ph (emit BcryptCompare w))
          else snd (updateResetDoc e sid ''attempts'' (\<lambda>x. x\<lparr>r_attempts := r_attempts s + 1\<rparr>)
                      (emit BcryptCompare w)))"
  using assms
  by (simp add: handleResetPassword_session_def Let_def split_def
        split: outcome.splits bool.splits)

lemma after_reset_read_proj [simp]:
  "otp_sessions (after_reset_read sid ph w) = otp_sessions w"
  "password_reset_sessions (after_reset_read sid ph w) = password_reset_sessions w"
  "trace (after_reset_read sid ph w) = trace w @ [StoreGet ''password_reset_sessions'' sid]"
  "timers (after_reset_read sid ph w) = timers w"
  "reset_timers (after_reset_read sid ph w) = reset_timers w"
  by (simp_all add: after_reset_read_def)

lemma handleResetPassword_rejected:
  assumes "\<not> truthy (p_sessionId req) \<or> \<not> truthy (p_otp req) \<or> \<not> truthy (p_phone req) \<or>
           \<not> truthy (p_newPassword req) \<or> validatePassword e (p_newPassword req) \<noteq> None"
  shows "snd (handleResetPassword e req w) = w"
  using assms by (auto simp add: handleResetPassword_def Let_def)

lemma handleResetPassword_accepted:
  assumes "truthy (p_sessionId req)" "truthy (p_otp req)" "truthy (p_phone req)"
          "truthy (p_newPassword req)" "validatePassword e (p_newPassword req) = None"
  shows "handleResetPassword e req w =
     (let sid = orElse (p_sessionId req) []; ph = orElse (p_phone req) [];
          w2 = after_reset_read sid ph w in
      case storeGet e of
        Some err \<Rightarrow> (Throws err, w2)
      | None \<Rightarrow>
          (case map_of (password_reset_sessions w) sid of
             None \<Rightarrow>
               (Returns (failure 404 ''SESSION_NOT_FOUND'' ''Invalid or expired session''),
                log Warn (''[resetPassword] Session not found: '' @ sid) w2)
           | Some s \<Rightarrow> handleResetPassword_session e sid (orElse (p_otp req) []) ph s w2))"
  using assms
  by (simp add: handleResetPassword_def Let_def getResetDoc_def after_reset_read_def
        split: option.splits)

text \<open>handleResetPassword deletes at once only on expiry or at the attempt limit, and
  schedules the deletion only when the code matched and the session was marked used.\<close>

lemma handleResetPassword_deletion:
  assumes "w2 = snd (handleResetPassword e req w)"
      and "sid = orElse (p_sessionId req) []" and "otp = orElse (p_otp req) []"
  shows "((\<exists>ev \<in> set (events_of w w2). isDelete ev) \<longrightarrow>
            events_of w w2 = [StoreGet ''password_reset_sessions'' sid,
                              StoreDelete ''password_reset_sessions'' sid] \<and>
            (\<exists>s. live_reset_session e req w s \<and>
                 (clock_now e > r_expiresAt s \<or> r_attempts s \<ge> 5))) \<and>
         (reset_timers w2 \<noteq> reset_timers w \<longrightarrow>
            reset_timers w2 = reset_timers w @ [(5000, sid)] \<and>
            \<not> (\<exists>ev \<in> set (events_of w w2). isDelete ev) \<and>
            (\<exists>s. live_reset_session e req w s \<and> clock_now e \<le> r_expiresAt s \<and>
                 r_attempts s < 5 \<and> bcryptCompare e otp (r_otpHash s) = Returns True \<and>
                 map_of (password_reset_sessions w2) sid = Some (s\<lparr>r_used := True\<rparr>))) \<and>
         (\<forall>i. map_of (password_reset_sessions w) i \<noteq> None \<and>
              map_of (password_reset_sessions w2) i = None \<longrightarrow>
              (\<exists>ev \<in> set (events_of w w2). isDelete ev)) \<and>
         otp_sessions w2 = otp_sessions w \<and> timers w2 = timers w"
proof -
  let ?D = "\<exists>ev \<in> set (events_of w w2). isDelete ev"
  let ?R1 = "?D \<longrightarrow>
            events_of w w2 = [StoreGet ''password_reset_sessions'' sid,
                              StoreDelete ''password_reset_sessions'' sid] \<and>
            (\<exists>s. live_reset_session e req w s \<and>
                 (clock_now e > r_expiresAt s \<or> r_attempts s \<ge> 5))"
  let ?R2 = "reset_timers w2 \<noteq> reset_timers w \<longrightarrow>
            reset_timers w2 = reset_timers w @ [(5000, sid)] \<and> \<not> ?D \<and>
            (\<exists>s. live_reset_session e req w s \<and> clock_now e \<le> r_expiresAt s \<and>
                 r_attempts s < 5 \<and> bcryptCompare e otp (r_otpHash s) = Returns True \<and>
                 map_of (password_reset_sessions w2) sid = Some (s\<lparr>r_used := True\<rparr>))"
  let ?R3 = "\<forall>i. map_of (password_reset_sessions w) i \<noteq> None \<and>
              map_of (password_reset_sessions w2) i = None \<longrightarrow> ?D"
  let ?R4 = "otp_sessions w2 = otp_sessions w \<and> timers w2 = timers w"
  have quiet: "?R1 \<and> ?R2 \<and> ?R3 \<and> ?R4"
    if "\<not> ?D" "reset_timers w2 = reset_timers w"
       "password_reset_sessions w2 = password_reset_sessions w"
       "otp_sessions w2 = otp_sessions w" "timers w2 = timers w"
    using that by auto
  show ?thesis
  proof (cases "truthy (p_sessionId req) \<and> truthy (p_otp req) \<and> truthy (p_phone req) \<and>
                truthy (p_newPassword req) \<and> validatePassword e (p_newPassword req) = None")
    case False
    then have "w2 = w" using handleResetPassword_rejected[of req e w] by (auto simp: assms(1))
    then show ?thesis by (intro quiet) simp_all
  next
    case True
    let ?ph = "orElse (p_phone req) []"
    let ?w1 = "after_reset_read sid ?ph w"
    have acc: "handleResetPassword e req w =
      (case storeGet e of
        Some err \<Rightarrow> (Throws err, ?w1)
      | None \<Rightarrow>
          (case map_of (password_reset_sessions w) sid of
             None \<Rightarrow>
               (Returns (failure 404 ''SESSION_NOT_FOUND'' ''Invalid or expired session''),
                log Warn (''[resetPassword] Session not found: '' @ sid) ?w1)
           | Some s \<Rightarrow> handleResetPassword_session e sid otp ?ph s ?w1))"
      using True handleResetPassword_accepted[of req e w] unfolding assms(2,3)
      by (simp add: Let_def)
    show ?thesis
    proof (cases "storeGet e")
      case (Some err)
      then show ?thesis
        by (intro quiet) (simp_all add: assms(1) acc events_of_def isDelete_def)
    next
      case None
      note g = this
      show ?thesis
      proof (cases "map_of (password_reset_sessions w) sid")
        case None
        then show ?thesis using g
          by (intro quiet) (simp_all add: assms(1) acc events_of_def isDelete_def)
      next
        case (Some s)
        let ?m = "handleResetPassword_session e sid otp ?ph s ?w1"
        have v: "w2 = snd ?m" using g Some by (simp add: assms(1) acc)
        show ?thesis
        proof (cases "r_phone s \<noteq> ?ph \<or> r_used s")
          case True
          show ?thesis
            using reset_session_quiet[OF True, where e=e and sid=sid and otp=otp and w="?w1"]
            by (intro quiet) (simp_all add: v events_of_def isDelete_def)
        next
          case False
          then have p: "r_phone s = ?ph" and u: "\<not> r_used s" by simp_all
          have live: "live_reset_session e req w s"
            using True Some p u g by (simp add: live_reset_session_def assms(2))
          show ?thesis
          proof (cases "clock_now e > r_expiresAt s \<or> r_attempts s \<ge> 5")
            case True
            note d = reset_session_delete[OF p u True, where sid=sid and otp=otp and w="?w1"]
            have ev: "events_of w w2 = [StoreGet ''password_reset_sessions'' sid,
                                        StoreDelete ''password_reset_sessions'' sid]"
              using d(2) by (simp add: v events_of_def)
            have dd: "?D" using ev by (simp add: isDelete_def)
            show ?thesis using ev dd d(1,3,4) live True by (auto simp add: v)
          next
            case False
            then have x: "clock_now e \<le> r_expiresAt s" and a: "r_attempts s < 5" by simp_all
            let ?w2 = "emit BcryptCompare ?w1"
            let ?u = "handleResetPassword_update e sid ?ph ?w2"
            note c = reset_session_compare[OF p u x a, where sid=sid and otp=otp and w="?w1"]
            have mo: "map_of (password_reset_sessions ?w2) sid = Some s" using Some by simp
            show ?thesis
            proof (cases "bcryptCompare e otp (r_otpHash s)")
              case (Throws err)
              then show ?thesis
                by (intro quiet) (simp_all add: v c events_of_def isDelete_def)
            next
              case (Returns b)
              show ?thesis
              proof (cases b)
                case False
                have k: "map_of (password_reset_sessions w2) i \<noteq> None"
                  if "map_of (password_reset_sessions w) i \<noteq> None" for i
                  using that Returns False
                  by (simp add: v c AList.update_conv' split: option.splits)
                have q: "\<not> ?D" "reset_timers w2 = reset_timers w"
                     "otp_sessions w2 = otp_sessions w" "timers w2 = timers w"
                  using Returns False by (simp_all add: v c events_of_def isDelete_def)
                have r3: "?R3" using k by blast
                show ?thesis using q r3 by blast
              next
                case True
                have w2u: "w2 = snd ?u" using Returns True by (simp add: v c)
                obtain evs where t: "trace (snd ?u) = trace ?w2 @ evs"
                    and nd: "list_all (\<lambda>ev. \<not> isDelete ev) evs"
                  using reset_update_trace[of e sid ?ph ?w2] by blast
                have d: "\<not> ?D"
                  using t nd by (simp add: w2u events_of_def isDelete_def list_all_iff)
                have k: "map_of (password_reset_sessions w2) i \<noteq> None"
                  if "map_of (password_reset_sessions w) i \<noteq> None" for i
                  using that mo
                  by (simp add: w2u reset_update_world AList.update_conv')
                have r4: "?R4" by (simp add: w2u reset_update_world)
                have r2: "?R2"
                proof (cases "reset_timers w2 = reset_timers w")
                  case True
                  then show ?thesis by simp
                next
                  case False
                  then have cond: "returns (authGetUser e) \<and> returns (authUpdateUser e) \<and>
                                   storeUpdate e = None"
                    by (auto simp add: w2u reset_update_world split: if_splits)
                  then have "reset_timers w2 = reset_timers w @ [(5000, sid)]"
                      "map_of (password_reset_sessions w2) sid = Some (s\<lparr>r_used := True\<rparr>)"
                    using mo by (simp_all add: w2u reset_update_world AList.update_conv')
                  then show ?thesis using d live x a Returns True by auto
                qed
                show ?thesis using d k r2 r4 by blast
              qed
            qed
          qed
        qed
      qed
    qed
  qed
qed

lemma runResetTimer_deletes:
  "storeDelete e = None \<Longrightarrow>
   map_of (password_reset_sessions (runResetTimer e (ms, i) w)) i = None"
  by (simp add: runResetTimer_def Let_def split_def AList.delete_conv')

section \<open>Claims about verifyOtp\<close>

text \<open>
  C7. A verification request whose phone differs from the phone the session is bound to is
  answered with PHONE_MISMATCH (status 403), and the session record is left as it was: the
  collection of sessions is unchanged (attempts not incremented, used not set, nothing
  deleted), no deletion is scheduled, and the only call made is the read of the session.
\<close>

theorem phone_mismatch_leaves_session_untouched:
  assumes "verification_request req sid otp ph"
      and "storeGet e = None"
      and "map_of (otp_sessions w) sid = Some s"
      and "phone s \<noteq> ph"
      and "verifyOtp e req w = (r, w')"
  shows "status r = 403 \<and> code_of r = Some (JStr ''PHONE_MISMATCH'') \<and>
         otp_sessions w' = otp_sessions w \<and> timers w' = timers w \<and>
         events_of w w' = [StoreGet ''otp_sessions'' sid]"
proof -
  let ?m = "verifyOtp_session e sid otp ph s (after_read sid ph w)"
  have v: "verifyOtp e req w = verifyOtp_catch ?m"
    by (rule verifyOtp_found[OF assms(1,2,3)])
  have r: "r = fst (verifyOtp_catch ?m)" and w': "w' = snd (verifyOtp_catch ?m)"
    using assms(5) v by simp_all
  note m = session_mismatch[OF assms(4), of e sid otp "after_read sid ph w"]
  show ?thesis
    using answered_catch[OF m(1)] m(2,3,4)
    by (simp add: r w' events_of_def)
qed

theorem phone_mismatch_leaves_session_untouched_witness:
  "verification_request req_other ''s1'' ''123456'' ''+2348100000001'' \<and>
   storeGet env0 = None \<and> map_of (otp_sessions world0) ''s1'' = Some sess0 \<and>
   phone sess0 \<noteq> ''+2348100000001'' \<and>
   code_of (fst (verifyOtp env0 req_other world0)) = Some (JStr ''PHONE_MISMATCH'') \<and>
   otp_sessions (snd (verifyOtp env0 req_other world0)) = [(''s1'', sess0)]"
proof -
  have h1: "verification_request req_other ''s1'' ''123456'' ''+2348100000001''"
    by (simp add: verification_request_def req_other_def req0_def isValidOTP_def isDigit_def)
  have h2: "storeGet env0 = None" by (simp add: env0_def)
  have h3: "map_of (otp_sessions world0) ''s1'' = Some sess0" by (simp add: world0_def)
  have h4: "phone sess0 \<noteq> ''+2348100000001''" by (simp add: sess0_def)
  show ?thesis
    using phone_mismatch_leaves_session_untouched[OF h1 h2 h3 h4,
            of "fst (verifyOtp env0 req_other world0)" "snd (verifyOtp env0 req_other world0)"]
          h1 h2 h3 h4
    by (simp add: world0_def)
qed

text \<open>
  C2. For every verification request, when the Session Store, bcrypt and the Identity
  Provider answer, the outcome is decided by the checks in the order of the specification,
  first match winning: no session, phone mismatch, used, expired, attempt limit, failed
  comparison, success. And whatever the collaborators answer, bcrypt is called exactly when
  the session was read and every earlier check has passed.
\<close>

theorem checks_in_order:
  assumes "verification_request req sid otp ph"
      and "verifyOtp e req w = (r, w')"
  shows "(storeAnswers e \<and> identityProviderAnswers e \<and>
          (\<forall>s. map_of (otp_sessions w) sid = Some s \<longrightarrow> returns (bcryptCompare e otp (otpHash s)))
          \<longrightarrow> outcome_of r =
                spec_order (map_of (otp_sessions w) sid) ph (clock_now e)
                  (\<lambda>s. bcryptCompare e otp (otpHash s) = Returns True)) \<and>
         (BcryptCompare \<in> set (events_of w w') \<longleftrightarrow>
            storeGet e = None \<and>
            (\<exists>s. map_of (otp_sessions w) sid = Some s \<and> phone s = ph \<and> \<not> used s \<and>
                 clock_now e \<le> expiresAt s \<and> attempts s < 5))"
proof -
  have r: "r = fst (verifyOtp e req w)" and w': "w' = snd (verifyOtp e req w)"
    using assms(2) by simp_all
  note wf = verifyOtp_wellformed[OF assms(1), of e w]
  show ?thesis
  proof (cases "storeGet e")
    case (Some err)
    then show ?thesis
      by (simp add: r w' wf events_of_def storeAnswers_def)
  next
    case None
    note g = this
    show ?thesis
    proof (cases "map_of (otp_sessions w) sid")
      case None
      then show ?thesis using g
        by (simp add: r w' wf events_of_def spec_order_def)
    next
      case (Some s)
      let ?w1 = "after_read sid ph w"
      let ?m = "verifyOtp_session e sid otp ph s ?w1"
      have v: "verifyOtp e req w = verifyOtp_catch ?m"
        by (rule verifyOtp_found[OF assms(1) g Some])
      show ?thesis
      proof (cases "phone s \<noteq> ph")
        case True
        note m = session_mismatch[OF True, where e=e and sid=sid and otp=otp and w="?w1"]
        show ?thesis using answered_catch[OF m(1)] m(3) True Some g
          by (simp add: r w' v events_of_def spec_order_def)
      next
        case False
        then have p: "phone s = ph" by simp
        show ?thesis
        proof (cases "used s")
          case True
          note m = session_used[OF p True, where e=e and sid=sid and otp=otp and w="?w1"]
          show ?thesis using answered_catch[OF m(1)] m(3) True p Some g
            by (simp add: r w' v events_of_def spec_order_def)
        next
          case False
          note u = this
          show ?thesis
          proof (cases "clock_now e > expiresAt s")
            case True
            note m = session_expired[OF p u True, where sid=sid and otp=otp and w="?w1"]
            have "storeAnswers e \<Longrightarrow> outcome_of (fst (verifyOtp_catch ?m)) = ''EXPIRED_OTP''"
              using answered_catch[OF m(1)] by (simp add: storeAnswers_def)
            then show ?thesis using m(4) True p u Some g
              by (simp add: r w' v events_of_def spec_order_def)
          next
            case False
            then have x: "clock_now e \<le> expiresAt s" by simp
            show ?thesis
            proof (cases "attempts s \<ge> 5")
              case True
              note m = session_limit[OF p u x True, where sid=sid and otp=otp and w="?w1"]
              have "storeAnswers e \<Longrightarrow>
                      outcome_of (fst (verifyOtp_catch ?m)) = ''MAX_ATTEMPTS_EXCEEDED''"
                using answered_catch[OF m(1)] by (simp add: storeAnswers_def)
              then show ?thesis using m(4) True p u x Some g
                by (simp add: r w' v events_of_def spec_order_def)
            next
              case False
              then have a: "attempts s < 5" by simp
              let ?c = "verifyOtp_compare e sid otp ph s ?w1"
              have mc: "?m = ?c" by (rule session_compare[OF p u x a])
              obtain evs where t: "trace (snd ?c) = trace ?w1 @ BcryptCompare # evs"
                using compare_trace[of e sid otp ph s ?w1] by blast
              have ev: "BcryptCompare \<in> set (events_of w w')"
                using t by (simp add: w' v mc events_of_def)
              have out: "outcome_of r =
                  (if bcryptCompare e otp (otpHash s) = Returns True then ''SUCCESS''
                   else ''INVALID_OTP'')"
                if sa: "storeAnswers e" and ia: "identityProviderAnswers e"
                  and ca: "returns (bcryptCompare e otp (otpHash s))"
              proof -
                from ca obtain b where b: "bcryptCompare e otp (otpHash s) = Returns b"
                  by (auto simp: returns_iff)
                have su: "storeUpdate e = None" using sa by (simp add: storeAnswers_def)
                have mo: "map_of (otp_sessions ?w1) sid = Some s" using Some by simp
                show ?thesis
                proof (cases b)
                  case True
                  obtain r' where "fst (verifyOtp_success e sid ph s (emit BcryptCompare ?w1))
                           = Returns r'" and "outcome_of r' = ''SUCCESS''"
                    using success_answer(1)[OF su _ ia, where w="emit BcryptCompare ?w1" and sid=sid and s'=s and ph=ph and s=s] mo
                    by auto
                  then show ?thesis using b True
                    by (simp add: r v mc compare_true verifyOtp_catch_fst)
                next
                  case False
                  have bf: "bcryptCompare e otp (otpHash s) = Returns False"
                    using b False by simp
                  note c = compare_false(1)[OF bf su mo, where ph=ph]
                  show ?thesis using answered_catch[OF c] b False
                    by (simp add: r v mc)
                qed
              qed
              show ?thesis using ev out p u x a Some g
                by (simp add: spec_order_def)
            qed
          qed
        qed
      qed
    qed
  qed
qed

theorem checks_in_order_witness:
  "verification_request req0 ''s1'' ''123456'' ''+2348100000000'' \<and>
   storeAnswers env_late \<and> identityProviderAnswers env_late \<and>
   outcome_of (fst (verifyOtp env_late req0 world0)) = ''EXPIRED_OTP'' \<and>
   BcryptCompare \<notin> set (events_of world0 (snd (verifyOtp env_late req0 world0))) \<and>
   outcome_of (fst (verifyOtp env0 req0 world0)) = ''SUCCESS'' \<and>
   BcryptCompare \<in> set (events_of world0 (snd (verifyOtp env0 req0 world0)))"
proof -
  have h1: "verification_request req0 ''s1'' ''123456'' ''+2348100000000''"
    by (simp add: verification_request_def req0_def isValidOTP_def isDigit_def)
  have h2: "storeAnswers env_late" "identityProviderAnswers env_late"
           "storeAnswers env0" "identityProviderAnswers env0"
    by (simp_all add: storeAnswers_def identityProviderAnswers_def env_late_def env0_def)
  have h3: "\<forall>s. map_of (otp_sessions world0) ''s1'' = Some s \<longrightarrow>
               returns (bcryptCompare env_late ''123456'' (otpHash s))"
           "\<forall>s. map_of (otp_sessions world0) ''s1'' = Some s \<longrightarrow>
               returns (bcryptCompare env0 ''123456'' (otpHash s))"
    by (simp_all add: env_late_def env0_def)
  have late: "spec_order (map_of (otp_sessions world0) ''s1'') ''+2348100000000''
                (clock_now env_late)
                (\<lambda>s. bcryptCompare env_late ''123456'' (otpHash s) = Returns True) = ''EXPIRED_OTP''"
    by (simp add: spec_order_def world0_def sess0_def env_late_def env0_def)
  have ok: "spec_order (map_of (otp_sessions world0) ''s1'') ''+2348100000000''
                (clock_now env0)
                (\<lambda>s. bcryptCompare env0 ''123456'' (otpHash s) = Returns True) = ''SUCCESS''"
    by (simp add: spec_order_def world0_def sess0_def env0_def)
  have c: "storeGet env_late = None" "clock_now env_late = 1300001" "storeGet env0 = None"
          "clock_now env0 = 1100000" "map_of (otp_sessions world0) ''s1'' = Some sess0"
          "expiresAt sess0 = 1300000" "phone sess0 = ''+2348100000000''" "\<not> used sess0"
          "attempts sess0 = 0"
    by (simp_all add: env_late_def env0_def world0_def sess0_def)
  show ?thesis
    using checks_in_order[OF h1, of env_late world0 "fst (verifyOtp env_late req0 world0)"
            "snd (verifyOtp env_late req0 world0)"]
          checks_in_order[OF h1, of env0 world0 "fst (verifyOtp env0 req0 world0)"
            "snd (verifyOtp env0 req0 world0)"]
          h1 h2 h3 late ok c
    by simp
qed

text \<open>
  C4, as the claim states it, fails: a session with five attempts whose request carries
  another phone is answered with PHONE_MISMATCH and stays in the store, and one that has
  expired is answered with EXPIRED_OTP.
\<close>

theorem max_attempts_earlier_checks_counterexample:
  "map_of (otp_sessions world5) ''s1'' = Some (sess0\<lparr>attempts := 5\<rparr>) \<and>
   code_of (fst (verifyOtp env0 req_other world5)) = Some (JStr ''PHONE_MISMATCH'') \<and>
   otp_sessions (snd (verifyOtp env0 req_other world5)) = otp_sessions world5 \<and>
   code_of (fst (verifyOtp env_late req0 world5)) = Some (JStr ''EXPIRED_OTP'')"
proof -
  have h1: "verification_request req_other ''s1'' ''123456'' ''+2348100000001''"
    by (simp add: verification_request_def req_other_def req0_def isValidOTP_def isDigit_def)
  have h2: "verification_request req0 ''s1'' ''123456'' ''+2348100000000''"
    by (simp add: verification_request_def req0_def isValidOTP_def isDigit_def)
  have g: "storeGet env0 = None" "storeGet env_late = None" "storeDelete env_late = None"
    by (simp_all add: env0_def env_late_def)
  have s: "map_of (otp_sessions world5) ''s1'' = Some (sess0\<lparr>attempts := 5\<rparr>)"
    by (simp add: world5_def world0_def)
  have p: "phone (sess0\<lparr>attempts := 5\<rparr>) \<noteq> ''+2348100000001''"
          "phone (sess0\<lparr>attempts := 5\<rparr>) = ''+2348100000000''"
          "\<not> used (sess0\<lparr>attempts := 5\<rparr>)"
          "clock_now env_late > expiresAt (sess0\<lparr>attempts := 5\<rparr>)"
    by (simp_all add: sess0_def env_late_def env0_def)
  note m = session_mismatch[OF p(1), where e=env0 and sid="''s1''" and otp="''123456''"
             and w="after_read ''s1'' ''+2348100000001'' world5"]
  note x = session_expired(1)[OF p(2,3,4) g(3), where sid="''s1''" and otp="''123456''"
             and w="after_read ''s1'' ''+2348100000000'' world5"]
  show ?thesis
    using s answered_catch[OF m(1)] m(2) answered_catch[OF x]
    by (simp add: verifyOtp_found[OF h1 g(1) s] verifyOtp_found[OF h2 g(2) s])
qed

text \<open>
  C4, amended. For every verification request whose session is bound to the request's phone,
  is not used and has not expired, and has five or more attempts, the answer is
  MAX_ATTEMPTS_EXCEEDED (status 403) whatever bcrypt would say of the submitted code (it is
  not called), and the session is deleted.
\<close>

theorem max_attempts_exceeded:
  assumes "verification_request req sid otp ph"
      and "storeGet e = None" and "storeDelete e = None"
      and "map_of (otp_sessions w) sid = Some s"
      and "phone s = ph" and "\<not> used s" and "clock_now e \<le> expiresAt s"
      and "attempts s \<ge> 5"
      and "verifyOtp e req w = (r, w')"
  shows "status r = 403 \<and> code_of r = Some (JStr ''MAX_ATTEMPTS_EXCEEDED'') \<and>
         map_of (otp_sessions w') sid = None \<and>
         events_of w w' = [StoreGet ''otp_sessions'' sid, StoreDelete ''otp_sessions'' sid]"
proof -
  let ?m = "verifyOtp_session e sid otp ph s (after_read sid ph w)"
  have v: "verifyOtp e req w = verifyOtp_catch ?m"
    by (rule verifyOtp_found[OF assms(1,2,4)])
  have r: "r = fst (verifyOtp_catch ?m)" and w': "w' = snd (verifyOtp_catch ?m)"
    using assms(9) v by simp_all
  note m = session_limit[OF assms(5,6,7,8), where sid=sid and otp=otp
             and w="after_read sid ph w"]
  show ?thesis
    using answered_catch[OF m(1)[OF assms(3)]] m(3,4) assms(3)
    by (simp add: r w' events_of_def AList.delete_conv')
qed

theorem max_attempts_exceeded_witness:
  "verification_request req0 ''s1'' ''123456'' ''+2348100000000'' \<and>
   storeGet env0 = None \<and> storeDelete env0 = None \<and>
   map_of (otp_sessions world5) ''s1'' = Some (sess0\<lparr>attempts := 5\<rparr>) \<and>
   bcryptCompare env0 ''123456'' (otpHash sess0) = Returns True \<and>
   code_of (fst (verifyOtp env0 req0 world5)) = Some (JStr ''MAX_ATTEMPTS_EXCEEDED'') \<and>
   map_of (otp_sessions (snd (verifyOtp env0 req0 world5))) ''s1'' = None"
proof -
  have h: "verification_request req0 ''s1'' ''123456'' ''+2348100000000''"
    by (simp add: verification_request_def req0_def isValidOTP_def isDigit_def)
  have g: "storeGet env0 = None" "storeDelete env0 = None"
    by (simp_all add: env0_def)
  have s: "map_of (otp_sessions world5) ''s1'' = Some (sess0\<lparr>attempts := 5\<rparr>)"
    by (simp add: world5_def world0_def)
  have p: "phone (sess0\<lparr>attempts := 5\<rparr>) = ''+2348100000000''"
          "\<not> used (sess0\<lparr>attempts := 5\<rparr>)"
          "clock_now env0 \<le> expiresAt (sess0\<lparr>attempts := 5\<rparr>)"
          "attempts (sess0\<lparr>attempts := 5\<rparr>) \<ge> 5"
    by (simp_all add: sess0_def env0_def)
  have c: "bcryptCompare env0 ''123456'' (otpHash sess0) = Returns True"
    by (simp add: env0_def sess0_def)
  show ?thesis
    using max_attempts_exceeded[OF h g s p, of "fst (verifyOtp env0 req0 world5)"
            "snd (verifyOtp env0 req0 world5)"] h g s c
    by simp
qed

text \<open>
  C8, as the claim states it, fails: verifyOtp does not check the format of the phone. A
  request whose phone is not in E.164 format, with a session id and a six-digit code, reads
  the session from the store and is answered with PHONE_MISMATCH (status 403), which is
  not a validation error.
\<close>

theorem malformed_phone_reaches_store_counterexample:
  "v_phone req_malformed_phone = Some ''08100000000'' \<and>
   \<not> isValidPhoneNumber ''08100000000'' \<and>
   status (fst (verifyOtp env0 req_malformed_phone world0)) = 403 \<and>
   code_of (fst (verifyOtp env0 req_malformed_phone world0)) = Some (JStr ''PHONE_MISMATCH'') \<and>
   events_of world0 (snd (verifyOtp env0 req_malformed_phone world0)) =
     [StoreGet ''otp_sessions'' ''s1'']"
proof -
  have h: "verification_request req_malformed_phone ''s1'' ''123456'' ''08100000000''"
    by (simp add: verification_request_def req_malformed_phone_def req0_def isValidOTP_def
          isDigit_def)
  have g: "storeGet env0 = None" by (simp add: env0_def)
  have s: "map_of (otp_sessions world0) ''s1'' = Some sess0" by (simp add: world0_def)
  have p: "phone sess0 \<noteq> ''08100000000''" by (simp add: sess0_def)
  have f: "\<not> isValidPhoneNumber ''08100000000''" by (simp add: isValidPhoneNumber_def)
  have q: "v_phone req_malformed_phone = Some ''08100000000''"
    by (simp add: req_malformed_phone_def)
  note m = session_mismatch[OF p, where e=env0 and sid="''s1''" and otp="''123456''"
             and w="after_read ''s1'' ''08100000000'' world0"]
  show ?thesis
    using f q answered_catch[OF m(1)] m(3)
    by (simp add: verifyOtp_found[OF h g s] events_of_def)
qed

text \<open>
  C8, amended. A verification request (a POST) in which the session id, the code or the
  phone is missing or empty, or whose code is not six digits, is rejected at once with a
  validation error (status 400, MISSING_REQUIRED_FIELDS or INVALID_OTP_FORMAT): no call is
  made to the Session Store or to any other collaborator and the state is unchanged. The
  format of the phone is not validated: when the phone is not in E.164 format and every
  stored session is bound to a number in that format, the request may read the session,
  but the sessions are left unchanged, no deletion is scheduled and the code is never
  compared, so no attempt is counted.
\<close>

theorem validation_rejects_without_store_access:
  assumes "v_method req = ''POST''"
      and "verifyOtp e req w = (r, w')"
  shows "(\<not> truthy (v_sessionId req) \<or> \<not> truthy (v_otp req) \<or> \<not> truthy (v_phone req) \<or>
          \<not> isValidOTP (orElse (v_otp req) [])
          \<longrightarrow> status r = 400 \<and>
              code_of r \<in> {Some (JStr ''MISSING_REQUIRED_FIELDS''),
                            Some (JStr ''INVALID_OTP_FORMAT'')} \<and>
              w' = w \<and> events_of w w' = []) \<and>
         (\<not> isValidPhoneNumber (orElse (v_phone req) []) \<and>
          (\<forall>s \<in> snd ` set (otp_sessions w). isValidPhoneNumber (phone s))
          \<longrightarrow> otp_sessions w' = otp_sessions w \<and> timers w' = timers w \<and>
              BcryptCompare \<notin> set (events_of w w'))"
proof -
  have r: "r = fst (verifyOtp e req w)" and w': "w' = snd (verifyOtp e req w)"
    using assms(2) by simp_all
  let ?bad = "\<not> truthy (v_sessionId req) \<or> \<not> truthy (v_otp req) \<or> \<not> truthy (v_phone req) \<or>
          \<not> isValidOTP (orElse (v_otp req) [])"
  have rejected: "status r = 400 \<and>
              code_of r \<in> {Some (JStr ''MISSING_REQUIRED_FIELDS''),
                            Some (JStr ''INVALID_OTP_FORMAT'')} \<and>
              w' = w \<and> events_of w w' = []" if "?bad"
    using verifyOtp_rejected[of req e w] that assms(1) by (auto simp: r w')
  have phone_part: "otp_sessions w' = otp_sessions w \<and> timers w' = timers w \<and>
              BcryptCompare \<notin> set (events_of w w')"
    if np: "\<not> isValidPhoneNumber (orElse (v_phone req) [])"
      and inv: "\<forall>s \<in> snd ` set (otp_sessions w). isValidPhoneNumber (phone s)"
  proof (cases "?bad")
    case True
    then show ?thesis using rejected by simp
  next
    case False
    let ?sid = "orElse (v_sessionId req) []" and ?otp = "orElse (v_otp req) []"
    let ?ph = "orElse (v_phone req) []"
    have vr: "verification_request req ?sid ?otp ?ph"
      using False assms(1) by (intro verification_requestI) simp_all
    note wf = verifyOtp_wellformed[OF vr, of e w]
    show ?thesis
    proof (cases "storeGet e")
      case (Some err)
      then show ?thesis by (simp add: w' wf events_of_def)
    next
      case None
      note g = this
      show ?thesis
      proof (cases "map_of (otp_sessions w) ?sid")
        case None
        then show ?thesis using g by (simp add: w' wf events_of_def)
      next
        case (Some s)
        then have "s \<in> snd ` set (otp_sessions w)"
          by (force dest: map_of_SomeD)
        then have p: "phone s \<noteq> ?ph" using inv np by auto
        note m = session_mismatch[OF p, where e=e and sid="?sid" and otp="?otp"
                   and w="after_read ?sid ?ph w"]
        show ?thesis using m(2,3,4)
          by (simp add: w' verifyOtp_found[OF vr g Some] events_of_def)
      qed
    qed
  qed
  show ?thesis using rejected phone_part by blast
qed

theorem validation_rejects_without_store_access_witness:
  "v_method req_short_code = ''POST'' \<and>
   \<not> isValidOTP (orElse (v_otp req_short_code) []) \<and>
   status (fst (verifyOtp env0 req_short_code world0)) = 400 \<and>
   snd (verifyOtp env0 req_short_code world0) = world0 \<and>
   \<not> isValidPhoneNumber (orElse (v_phone req_malformed_phone) []) \<and>
   list_all (\<lambda>s. isValidPhoneNumber (phone s)) (map snd (otp_sessions world0)) \<and>
   otp_sessions (snd (verifyOtp env0 req_malformed_phone world0)) = otp_sessions world0"
proof -
  have a: "v_method req_short_code = ''POST''" "v_method req_malformed_phone = ''POST''"
    by (simp_all add: req_short_code_def req_malformed_phone_def req0_def)
  have b: "\<not> isValidOTP (orElse (v_otp req_short_code) [])"
    by (simp add: req_short_code_def orElse_def isValidOTP_def)
  have c: "\<not> isValidPhoneNumber (orElse (v_phone req_malformed_phone) [])"
    by (simp add: req_malformed_phone_def orElse_def isValidPhoneNumber_def)
  have d: "\<forall>s \<in> snd ` set (otp_sessions world0). isValidPhoneNumber (phone s)"
    by (simp add: world0_def sess0_def isValidPhoneNumber_def isDigit_def)
  have d2: "list_all (\<lambda>s. isValidPhoneNumber (phone s)) (map snd (otp_sessions world0))"
    by (simp add: world0_def sess0_def isValidPhoneNumber_def isDigit_def)
  show ?thesis
    using validation_rejects_without_store_access[OF a(1),
            of env0 world0 "fst (verifyOtp env0 req_short_code world0)"
               "snd (verifyOtp env0 req_short_code world0)"]
          validation_rejects_without_store_access[OF a(2),
            of env0 world0 "fst (verifyOtp env0 req_malformed_phone world0)"
               "snd (verifyOtp env0 req_malformed_phone world0)"]
          a b c d d2
    by simp
qed

text \<open>The scheduled deletion removes the session, unless the store refuses the deletion.\<close>

lemma runTimer_deletes:
  "storeDelete e = None \<Longrightarrow> map_of (otp_sessions (runTimer e (ms, i) w)) i = None"
  by (simp add: runTimer_def deleteDoc_def Let_def AList.delete_conv')

lemma runTimer_keeps:
  "storeDelete e = Some err \<Longrightarrow> otp_sessions (runTimer e (ms, i) w) = otp_sessions w"
  by (simp add: runTimer_def deleteDoc_def Let_def)

text \<open>A well-formed request for a session that passes every check and whose code matches:
  what it stores and schedules, and what a later request for the same session is answered.\<close>

lemma verifyOtp_matched:
  assumes "verification_request req sid otp ph"
      and "storeGet e = None"
      and "map_of (otp_sessions w) sid = Some s"
      and "phone s = ph" and "\<not> used s" and "clock_now e \<le> expiresAt s"
      and "attempts s < 5"
      and "bcryptCompare e otp (otpHash s) = Returns True"
  shows "verifyOtp e req w =
           verifyOtp_catch (verifyOtp_success e sid ph s (emit BcryptCompare (after_read sid ph w)))"
  by (simp add: verifyOtp_found[OF assms(1,2,3)] session_compare[OF assms(4,5,6,7)]
        compare_true[OF assms(8)])

lemma matched_state:
  assumes "storeUpdate e = None" and "map_of (otp_sessions w) sid = Some s"
  shows "map_of (otp_sessions (snd (verifyOtp_catch
            (verifyOtp_success e sid ph s (emit BcryptCompare (after_read sid ph w)))))) sid =
           Some (s\<lparr>used := True\<rparr>)"
    and "timers (snd (verifyOtp_catch
            (verifyOtp_success e sid ph s (emit BcryptCompare (after_read sid ph w))))) =
           timers w @ [(5000, sid)]"
  using assms by (simp_all add: success_world AList.update_conv')

lemma matched_idp_fails:
  assumes "storeUpdate e = None" and "map_of (otp_sessions w) sid = Some s"
      and "\<not> identityProviderAnswers e"
  shows "status (fst (verifyOtp_catch
            (verifyOtp_success e sid ph s (emit BcryptCompare (after_read sid ph w))))) = 500"
    and "code_of (fst (verifyOtp_catch
            (verifyOtp_success e sid ph s (emit BcryptCompare (after_read sid ph w))))) =
           Some (JStr ''INTERNAL_ERROR'')"
proof -
  let ?s = "verifyOtp_success e sid ph s (emit BcryptCompare (after_read sid ph w))"
  have mo: "map_of (otp_sessions (emit BcryptCompare (after_read sid ph w))) sid = Some s"
    using assms(2) by simp
  obtain err where t: "fst ?s = Throws err"
    using success_answer(2)[OF assms(1) mo assms(3), where ph=ph and s=s] by blast
  show "status (fst (verifyOtp_catch ?s)) = 500"
    using verifyOtp_catch_Throws[of ?s err] t by simp
  show "code_of (fst (verifyOtp_catch ?s)) = Some (JStr ''INTERNAL_ERROR'')"
    using verifyOtp_catch_Throws[of ?s err] t by simp
qed

lemma retry_used:
  assumes "verification_request req sid otp ph" and "storeGet e = None"
      and "map_of (otp_sessions w) sid = Some s" and "phone s = ph" and "used s"
  shows "code_of (fst (verifyOtp e req w)) = Some (JStr ''OTP_ALREADY_USED'')"
  using answered_catch[OF session_used(1)[OF assms(4,5), where e=e and sid=sid and otp=otp
          and w="after_read sid ph w"]]
  by (simp add: verifyOtp_found[OF assms(1,2,3)])

lemma retry_deleted:
  assumes "verification_request req sid otp ph" and "storeGet e = None"
      and "map_of (otp_sessions w) sid = None"
  shows "code_of (fst (verifyOtp e req w)) = Some (JStr ''SESSION_NOT_FOUND'')"
  using assms(2,3)
  by (simp add: verifyOtp_wellformed[OF assms(1)] verifyOtp_catch_def code_of_def failure_def
        json_def)

text \<open>
  C10, as the claim states it, fails. The token cannot be minted: the request with the
  correct code is answered INTERNAL_ERROR, the session is stored as used, and its deletion
  has been scheduled before the Identity Provider was called. Once that deletion has run,
  the same request with the correct code is answered SESSION_NOT_FOUND, not
  OTP_ALREADY_USED.
\<close>

theorem retry_after_deletion_counterexample:
  "code_of (fst (verifyOtp env_idp_down req0 world0)) = Some (JStr ''INTERNAL_ERROR'') \<and>
   map_of (otp_sessions (snd (verifyOtp env_idp_down req0 world0))) ''s1'' =
     Some (sess0\<lparr>used := True\<rparr>) \<and>
   timers (snd (verifyOtp env_idp_down req0 world0)) = [(5000, ''s1'')] \<and>
   bcryptCompare env0 ''123456'' (otpHash sess0) = Returns True \<and>
   code_of (fst (verifyOtp env0 req0
                   (runTimer env0 (5000, ''s1'') (snd (verifyOtp env_idp_down req0 world0))))) =
     Some (JStr ''SESSION_NOT_FOUND'')"
proof -
  have h: "verification_request req0 ''s1'' ''123456'' ''+2348100000000''"
    by (simp add: verification_request_def req0_def isValidOTP_def isDigit_def)
  have g: "storeGet env_idp_down = None" "storeUpdate env_idp_down = None"
    by (simp_all add: env_idp_down_def env0_def)
  have s: "map_of (otp_sessions world0) ''s1'' = Some sess0" by (simp add: world0_def)
  have p: "phone sess0 = ''+2348100000000''" "\<not> used sess0"
          "clock_now env_idp_down \<le> expiresAt sess0" "attempts sess0 < 5"
    by (simp_all add: sess0_def env_idp_down_def env0_def)
  have c: "bcryptCompare env_idp_down ''123456'' (otpHash sess0) = Returns True"
          "bcryptCompare env0 ''123456'' (otpHash sess0) = Returns True"
    by (simp_all add: env_idp_down_def env0_def sess0_def)
  have d: "\<not> identityProviderAnswers env_idp_down"
    by (simp add: identityProviderAnswers_def env_idp_down_def env0_def)
  have g0: "storeGet env0 = None" "storeDelete env0 = None" by (simp_all add: env0_def)
  have t0: "timers world0 = []" by (simp add: world0_def)
  note v = verifyOtp_matched[OF h g(1) s p c(1)]
  have gone: "map_of (otp_sessions (runTimer env0 (5000, ''s1'')
                 (snd (verifyOtp env_idp_down req0 world0)))) ''s1'' = None"
    using runTimer_deletes[OF g0(2)] by simp
  show ?thesis
    using matched_idp_fails(2)[OF g(2) s d, of "''+2348100000000''"]
          matched_state[OF g(2) s, of "''+2348100000000''"]
          retry_deleted[OF h g0(1) gone] c(2) t0
    by (simp add: v)
qed

text \<open>
  C10, amended. On the success path (the session is read, passes every check and the code
  matches) the update \<open>used = true\<close> is the call made right after the comparison, the
  deletion of the session is scheduled 5000 ms later, every later call goes to the Identity
  Provider, beginning with the account lookup, and the session is stored as used whatever
  the Identity Provider answers. When a call to the Identity Provider throws, the answer is
  INTERNAL_ERROR (status 500). The same request sent again, whatever bcrypt answers, is
  answered OTP_ALREADY_USED as long as the scheduled deletion has not run, or when the
  store refused that deletion; once the deletion has run it is answered
  SESSION_NOT_FOUND.
\<close>

theorem used_persisted_before_identity_provider:
  assumes "verification_request req sid otp ph"
      and "storeGet e = None" and "storeUpdate e = None"
      and "map_of (otp_sessions w) sid = Some s"
      and "phone s = ph" and "\<not> used s" and "clock_now e \<le> expiresAt s"
      and "attempts s < 5"
      and "bcryptCompare e otp (otpHash s) = Returns True"
      and "verifyOtp e req w = (r, w')"
  shows "(\<exists>evs. events_of w w' =
                  [StoreGet ''otp_sessions'' sid, BcryptCompare,
                   StoreUpdate ''otp_sessions'' sid ''used''] @ evs \<and>
                evs \<noteq> [] \<and> hd evs = AuthGetUser ph \<and> list_all isAuth evs) \<and>
         map_of (otp_sessions w') sid = Some (s\<lparr>used := True\<rparr>) \<and>
         timers w' = timers w @ [(5000, sid)] \<and>
         (\<not> identityProviderAnswers e \<longrightarrow>
            status r = 500 \<and> code_of r = Some (JStr ''INTERNAL_ERROR'') \<and>
            (\<forall>e2. storeGet e2 = None \<longrightarrow>
                  code_of (fst (verifyOtp e2 req w')) = Some (JStr ''OTP_ALREADY_USED'')) \<and>
            (\<forall>e2 e3. storeGet e2 = None \<and> storeDelete e3 = None \<longrightarrow>
                  code_of (fst (verifyOtp e2 req (runTimer e3 (5000, sid) w'))) =
                    Some (JStr ''SESSION_NOT_FOUND'')) \<and>
            (\<forall>e2 e3. storeGet e2 = None \<and> storeDelete e3 \<noteq> None \<longrightarrow>
                  code_of (fst (verifyOtp e2 req (runTimer e3 (5000, sid) w'))) =
                    Some (JStr ''OTP_ALREADY_USED'')))"
proof -
  let ?w2 = "emit BcryptCompare (after_read sid ph w)"
  let ?s = "verifyOtp_success e sid ph s ?w2"
  note v = verifyOtp_matched[OF assms(1,2,4,5,6,7,8,9)]
  have r: "r = fst (verifyOtp_catch ?s)" and w': "w' = snd (verifyOtp_catch ?s)"
    using assms(10) v by simp_all
  have mo: "map_of (otp_sessions ?w2) sid = Some s" using assms(4) by simp
  obtain evs where t: "trace (snd ?s) = trace ?w2 @ StoreUpdate ''otp_sessions'' sid ''used'' # evs"
      and au: "list_all isAuth evs" and ne: "evs \<noteq> []" and hd: "hd evs = AuthGetUser ph"
    using success_trace[of e sid ph s ?w2] assms(3) mo by auto
  have ev: "events_of w w' =
              [StoreGet ''otp_sessions'' sid, BcryptCompare,
               StoreUpdate ''otp_sessions'' sid ''used''] @ evs"
    using t by (simp add: w' events_of_def)
  have st: "map_of (otp_sessions w') sid = Some (s\<lparr>used := True\<rparr>)"
    and tm: "timers w' = timers w @ [(5000, sid)]"
    using matched_state[OF assms(3,4), of ph] by (simp_all add: w')
  have fail: "status r = 500 \<and> code_of r = Some (JStr ''INTERNAL_ERROR'')"
    if nia: "\<not> identityProviderAnswers e"
    using matched_idp_fails[OF assms(3,4) nia, of ph] by (simp add: r)
  have p: "phone (s\<lparr>used := True\<rparr>) = ph" "used (s\<lparr>used := True\<rparr>)"
    using assms(5) by simp_all
  have retry: "code_of (fst (verifyOtp e2 req w')) = Some (JStr ''OTP_ALREADY_USED'')"
    if g2: "storeGet e2 = None" for e2
    using retry_used[OF assms(1) g2 st p] .
  have late: "code_of (fst (verifyOtp e2 req (runTimer e3 (5000, sid) w'))) =
                Some (JStr ''SESSION_NOT_FOUND'')"
    if g2: "storeGet e2 = None" and d3: "storeDelete e3 = None" for e2 e3
    using retry_deleted[OF assms(1) g2 runTimer_deletes[OF d3]] .
  have kept: "code_of (fst (verifyOtp e2 req (runTimer e3 (5000, sid) w'))) =
                Some (JStr ''OTP_ALREADY_USED'')"
    if g2: "storeGet e2 = None" and d3: "storeDelete e3 \<noteq> None" for e2 e3
  proof -
    obtain err where "storeDelete e3 = Some err" using d3 by auto
    then have "map_of (otp_sessions (runTimer e3 (5000, sid) w')) sid = Some (s\<lparr>used := True\<rparr>)"
      using st by (simp add: runTimer_keeps)
    then show ?thesis using retry_used[OF assms(1) g2 _ p] by blast
  qed
  show ?thesis using ev ne hd au st tm fail retry late kept by blast
qed

theorem used_persisted_before_identity_provider_witness:
  "verification_request req0 ''s1'' ''123456'' ''+2348100000000'' \<and>
   storeGet env_idp_down = None \<and> storeUpdate env_idp_down = None \<and>
   map_of (otp_sessions world0) ''s1'' = Some sess0 \<and>
   bcryptCompare env_idp_down ''123456'' (otpHash sess0) = Returns True \<and>
   \<not> identityProviderAnswers env_idp_down \<and>
   code_of (fst (verifyOtp env_idp_down req0 world0)) = Some (JStr ''INTERNAL_ERROR'') \<and>
   code_of (fst (verifyOtp env0 req0 (snd (verifyOtp env_idp_down req0 world0)))) =
     Some (JStr ''OTP_ALREADY_USED'') \<and>
   code_of (fst (verifyOtp env0 req0
                   (runTimer env0 (5000, ''s1'') (snd (verifyOtp env_idp_down req0 world0))))) =
     Some (JStr ''SESSION_NOT_FOUND'')"
proof -
  have h: "verification_request req0 ''s1'' ''123456'' ''+2348100000000''"
    by (simp add: verification_request_def req0_def isValidOTP_def isDigit_def)
  have g: "storeGet env_idp_down = None" "storeUpdate env_idp_down = None"
    by (simp_all add: env_idp_down_def env0_def)
  have s: "map_of (otp_sessions world0) ''s1'' = Some sess0" by (simp add: world0_def)
  have p: "phone sess0 = ''+2348100000000''" "\<not> used sess0"
          "clock_now env_idp_down \<le> expiresAt sess0" "attempts sess0 < 5"
    by (simp_all add: sess0_def env_idp_down_def env0_def)
  have c: "bcryptCompare env_idp_down ''123456'' (otpHash sess0) = Returns True"
    by (simp add: env_idp_down_def env0_def sess0_def)
  have d: "\<not> identityProviderAnswers env_idp_down"
    by (simp add: identityProviderAnswers_def env_idp_down_def env0_def)
  have g0: "storeGet env0 = None" "storeDelete env0 = None" by (simp_all add: env0_def)
  note t = used_persisted_before_identity_provider[OF h g s p c,
            of "fst (verifyOtp env_idp_down req0 world0)"
               "snd (verifyOtp env_idp_down req0 world0)"]
  show ?thesis using t h g s c d g0 by simp
qed

section \<open>Claims about issuance\<close>

text \<open>
  C6. When the store query of the rate limiter throws, the check answers allowed, for
  sendOtp and for the password reset alike, and the request is not rejected for its rate:
  neither handler answers with status 429; a sendOtp request that passes validation goes
  on to generate, hash and send the code, and a password reset request that passes
  validation goes on to the account lookup.
\<close>

theorem rate_limit_fails_open:
  assumes "storeQuery e = Some err"
  shows "fst (checkRateLimit e ph w) = Allowed \<and>
         fst (checkResetRateLimit e ph w) = Allowed \<and>
         status (fst (sendOtp e req w)) \<noteq> 429 \<and>
         (s_method req = ''POST'' \<and> s_phone req = Some ph \<and> isValidPhoneNumber ph \<longrightarrow>
            sendOtp e req w = sendOtp_catch (sendOtp_issue e req ph (after_limit e ph w)) \<and>
            BcryptHash \<in> set (events_of w (snd (sendOtp e req w)))) \<and>
         (\<forall>r. fst (handleRequestOTP e pf w) = Returns r \<longrightarrow> status r \<noteq> 429) \<and>
         (pf = Some ph \<and> isValidPhoneNumber ph \<longrightarrow>
            AuthGetUser ph \<in> set (events_of w (snd (handleRequestOTP e pf w))))"
proof -
  have a: "fst (checkRateLimit e ph w) = Allowed" for ph w
    using assms by (simp add: checkRateLimit_fst)
  have b: "fst (checkResetRateLimit e ph w) = Allowed" for ph w
    using assms by (simp add: checkResetRateLimit_fst)
  have go: "sendOtp e req w = sendOtp_catch (sendOtp_issue e req p (after_limit e p w))"
    if "s_method req = ''POST''" "s_phone req = Some p" "isValidPhoneNumber p" for p
    using sendOtp_valid[OF that, of e w] a by simp
  have st: "status (fst (sendOtp_catch (sendOtp_issue e req p w0))) \<noteq> 429" for p w0
    using issue_answer(1)[of e req p w0]
    by (cases "fst (sendOtp_issue e req p w0)") (auto simp: sendOtp_catch_fst)
  have c: "status (fst (sendOtp e req w)) \<noteq> 429"
  proof (cases "s_method req = ''POST'' \<and> truthy (s_phone req) \<and>
                isValidPhoneNumber (orElse (s_phone req) [])")
    case True
    then show ?thesis using go[OF _ send_requestI] st by simp
  next
    case False
    then show ?thesis using sendOtp_invalid(2)[of req e w] by auto
  qed
  have d: "BcryptHash \<in> set (events_of w (snd (sendOtp e req w)))"
    if "s_method req = ''POST''" "s_phone req = Some ph" "isValidPhoneNumber ph"
  proof -
    obtain evs where "trace (snd (sendOtp_issue e req ph (after_limit e ph w))) =
                        trace (after_limit e ph w) @ BcryptHash # evs"
      using issue_trace[of e req ph "after_limit e ph w"] by blast
    then show ?thesis by (simp add: go[OF that] events_of_def)
  qed
  have f: "status r \<noteq> 429" if "fst (handleRequestOTP e pf w) = Returns r" for r
  proof (cases "truthy pf \<and> isValidPhoneNumber (orElse pf [])")
    case False
    then show ?thesis using that handleRequestOTP_invalid[of pf e w] by auto
  next
    case True
    then have v: "truthy pf" "isValidPhoneNumber (orElse pf [])" by simp_all
    let ?w3 = "emit (AuthGetUser (orElse pf [])) (after_reset_limit e (orElse pf []) w)"
    show ?thesis
      using that reset_issue_answer(1)[of e "orElse pf []" ?w3 r] b
      by (auto simp add: handleRequestOTP_valid[OF v] Let_def split: outcome.splits if_splits)
  qed
  have g: "AuthGetUser ph \<in> set (events_of w (snd (handleRequestOTP e pf w)))"
    if pf: "pf = Some ph" and vp: "isValidPhoneNumber ph"
  proof -
    have "ph \<noteq> []" using vp by (auto simp: isValidPhoneNumber_def)
    then have v: "truthy pf" "isValidPhoneNumber (orElse pf [])" and o: "orElse pf [] = ph"
      using pf vp by (simp_all add: truthy_def orElse_def)
    let ?w3 = "emit (AuthGetUser ph) (after_reset_limit e ph w)"
    obtain evs where "trace (snd (handleRequestOTP_issue e ph ?w3)) = trace ?w3 @ BcryptHash # evs"
      using reset_issue_trace[of e ph ?w3] by blast
    then show ?thesis using b
      by (simp add: handleRequestOTP_valid[OF v] o Let_def events_of_def split: outcome.splits)
  qed
  show ?thesis using a b c go d f g by blast
qed

theorem rate_limit_fails_open_witness:
  "storeQuery env_query_down = Some boom \<and>
   length (queryByPhoneSince (otp_sessions world3) ''+2348100000000''
             (clock_window env_query_down - 15 * 60 * 1000)) = 3 \<and>
   fst (checkRateLimit env_query_down ''+2348100000000'' world3) = Allowed \<and>
   status (fst (sendOtp env_query_down sreq0 world3)) \<noteq> 429 \<and>
   BcryptHash \<in> set (events_of world3 (snd (sendOtp env_query_down sreq0 world3)))"
proof -
  have h: "storeQuery env_query_down = Some boom" by (simp add: env_query_down_def)
  have q: "length (queryByPhoneSince (otp_sessions world3) ''+2348100000000''
             (clock_window env_query_down - 15 * 60 * 1000)) = 3"
    by (simp add: queryByPhoneSince_def world3_def world0_def sess0_def env_query_down_def
          env0_def)
  have v: "s_method sreq0 = ''POST''" "s_phone sreq0 = Some ''+2348100000000''"
          "isValidPhoneNumber ''+2348100000000''"
    by (simp_all add: sreq0_def isValidPhoneNumber_def isDigit_def)
  note t = rate_limit_fails_open[OF h, of "''+2348100000000''" world3 sreq0]
  show ?thesis using t h q v by blast
qed

text \<open>
  C3. When the client is configured and the Twilio API throws, the send returns a failure
  and, for sendOtp and for the password reset alike, no session is written: both
  collections are unchanged and the store is never asked to set a document; and whenever
  the send was made the caller is answered with status 500. A session is thus written only
  after a send that succeeded.
\<close>

theorem no_session_when_delivery_fails:
  assumes "twilioConfigured e" and "twilioCreate e = Throws err"
      and "sendOtp e req w = (r, w')"
      and "handleRequestOTP e pf w = (x, w'')"
  shows "isFailed (fst (sendSMSOTP e p otp w0)) \<and> isFailed (fst (sendWhatsAppOTP e p otp w0)) \<and>
         otp_sessions w' = otp_sessions w \<and>
         password_reset_sessions w' = password_reset_sessions w \<and>
         list_all (\<lambda>ev. \<not> isSet ev) (events_of w w') \<and>
         ((\<exists>ev \<in> set (events_of w w'). isTwilioCreate ev) \<longrightarrow> status r = 500) \<and>
         otp_sessions w'' = otp_sessions w \<and>
         password_reset_sessions w'' = password_reset_sessions w \<and>
         list_all (\<lambda>ev. \<not> isSet ev) (events_of w w'') \<and>
         ((\<exists>ev \<in> set (events_of w w''). isTwilioCreate ev) \<longrightarrow>
            (\<exists>r'. x = Returns r' \<and> status r' = 500))"
proof -
  have nr: "\<not> returns (twilioCreate e)" using assms(2) by simp
  have f: "isFailed (fst (sendSMSOTP e p otp w0))" "isFailed (fst (sendWhatsAppOTP e p otp w0))"
    using assms(1,2) by (simp_all add: sendWhatsAppOTP_fst sendSMSOTP_fst isFailed_def)
  have r: "r = fst (sendOtp e req w)" and w': "w' = snd (sendOtp e req w)"
    using assms(3) by simp_all
  have x: "x = fst (handleRequestOTP e pf w)" and w'': "w'' = snd (handleRequestOTP e pf w)"
    using assms(4) by simp_all
  have send: "otp_sessions w' = otp_sessions w \<and>
         password_reset_sessions w' = password_reset_sessions w \<and>
         list_all (\<lambda>ev. \<not> isSet ev) (events_of w w') \<and>
         ((\<exists>ev \<in> set (events_of w w'). isTwilioCreate ev) \<longrightarrow> status r = 500)"
  proof (cases "s_method req = ''POST'' \<and> truthy (s_phone req) \<and>
                isValidPhoneNumber (orElse (s_phone req) [])")
    case False
    then show ?thesis using sendOtp_invalid(1)[of req e w] by (auto simp: w')
  next
    case True
    let ?ph = "orElse (s_phone req) []"
    let ?w2 = "after_limit e ?ph w"
    have v: "s_method req = ''POST''" "s_phone req = Some ?ph" "isValidPhoneNumber ?ph"
      using True send_requestI[of req] by simp_all
    note sv = sendOtp_valid[OF v, of e w]
    show ?thesis
    proof (cases "fst (checkRateLimit e ?ph w)")
      case (Limited m)
      then show ?thesis
        by (simp add: r w' sv events_of_def isSet_def isTwilioCreate_def)
    next
      case Allowed
      obtain evs where t: "trace (snd (sendOtp_issue e req ?ph ?w2)) = trace ?w2 @ BcryptHash # evs"
          and ns: "list_all (\<lambda>ev. \<not> isSet ev) evs"
        using issue_trace[of e req ?ph ?w2] assms(1) nr by blast
      have ev: "events_of w w' =
                  StoreQuery ''otp_sessions'' ?ph (clock_window e - 15 * 60 * 1000)
                  # BcryptHash # evs"
        using t Allowed by (simp add: w' sv events_of_def)
      have s5: "status r = 500"
      proof (cases "fst (sendOtp_issue e req ?ph ?w2)")
        case (Throws err')
        then show ?thesis using Allowed by (simp add: r sv sendOtp_catch_fst)
      next
        case (Returns r')
        then show ?thesis
          using Allowed issue_answer(3)[OF assms(1,2) Returns]
          by (simp add: r sv sendOtp_catch_fst)
      qed
      show ?thesis
        using ev ns s5 Allowed issue_store_unchanged_if_send_fails[OF assms(1,2), of req ?ph ?w2]
        by (simp add: w' sv isSet_def)
    qed
  qed
  have reset: "otp_sessions w'' = otp_sessions w \<and>
         password_reset_sessions w'' = password_reset_sessions w \<and>
         list_all (\<lambda>ev. \<not> isSet ev) (events_of w w'') \<and>
         ((\<exists>ev \<in> set (events_of w w''). isTwilioCreate ev) \<longrightarrow>
            (\<exists>r'. x = Returns r' \<and> status r' = 500))"
  proof (cases "truthy pf \<and> isValidPhoneNumber (orElse pf [])")
    case False
    then show ?thesis using handleRequestOTP_invalid[of pf e w] by (auto simp: w'')
  next
    case True
    then have v: "truthy pf" "isValidPhoneNumber (orElse pf [])" by simp_all
    let ?ph = "orElse pf []"
    let ?w3 = "emit (AuthGetUser ?ph) (after_reset_limit e ?ph w)"
    note hv = handleRequestOTP_valid[OF v, of e w]
    obtain evs where t: "trace (snd (handleRequestOTP_issue e ?ph ?w3)) = trace ?w3 @ BcryptHash # evs"
        and ns: "list_all (\<lambda>ev. \<not> isSet ev) evs"
        and tc: "(\<exists>ev \<in> set evs. isTwilioCreate ev) \<longleftrightarrow>
                 returns (bcryptHash e (generateSecureOTP e))"
      using reset_issue_trace[of e ?ph ?w3] assms(1) nr by blast
    have i5: "fst (handleRequestOTP_issue e ?ph ?w3) = Returns r' \<Longrightarrow> status r' = 500" for r'
      by (rule reset_issue_answer(2)[OF assms(1,2)])
    have out: "\<exists>r'. fst (handleRequestOTP_issue e ?ph ?w3) = Returns r'"
      if "\<exists>ev \<in> set evs. isTwilioCreate ev"
      using that tc reset_issue_answer(3)[OF assms(1,2), of ?ph ?w3] by blast
    show ?thesis
      using t ns i5 out reset_issue_store_unchanged_if_send_fails[OF assms(1,2), of ?ph ?w3]
      by (auto simp add: x w'' hv Let_def events_of_def isSet_def isTwilioCreate_def list_all_iff
            split: rate_limit.splits outcome.splits)
  qed
  show ?thesis using f send reset by blast
qed

theorem no_session_when_delivery_fails_witness:
  "twilioConfigured env_twilio_down \<and>
   twilioCreate env_twilio_down = Throws \<lparr>err_message = ''blocked'', err_code = JNum 21610\<rparr> \<and>
   (\<exists>ev \<in> set (events_of world0 (snd (sendOtp env_twilio_down sreq0 world0))). isTwilioCreate ev) \<and>
   status (fst (sendOtp env_twilio_down sreq0 world0)) = 500 \<and>
   otp_sessions (snd (sendOtp env_twilio_down sreq0 world0)) = otp_sessions world0"
proof -
  have h: "twilioConfigured env_twilio_down"
          "twilioCreate env_twilio_down = Throws \<lparr>err_message = ''blocked'', err_code = JNum 21610\<rparr>"
    by (simp_all add: env_twilio_down_def env0_def)
  have v: "s_method sreq0 = ''POST''" "s_phone sreq0 = Some ''+2348100000000''"
          "isValidPhoneNumber ''+2348100000000''"
    by (simp_all add: sreq0_def isValidPhoneNumber_def isDigit_def)
  have a: "fst (checkRateLimit env_twilio_down ''+2348100000000'' world0) = Allowed"
    by (simp add: checkRateLimit_fst queryByPhoneSince_def world0_def env_twilio_down_def env0_def)
  have b: "\<not> returns (twilioCreate env_twilio_down)"
          "returns (bcryptHash env_twilio_down (generateSecureOTP env_twilio_down))"
    by (simp_all add: env_twilio_down_def env0_def)
  note ev = sendOtp_send_made[OF v a h(1) b]
  note t = no_session_when_delivery_fails[OF h, of sreq0 world0
             "fst (sendOtp env_twilio_down sreq0 world0)"
             "snd (sendOtp env_twilio_down sreq0 world0)" None
             "fst (handleRequestOTP env_twilio_down None world0)"
             "snd (handleRequestOTP env_twilio_down None world0)"]
  show ?thesis using t h ev by simp
qed

lemma toString_123456: "toString 123456 = ''123456''"
  by (simp add: toString_def nat_to_string.simps digit_char_def)

lemma issue_ok:
  assumes "bcryptHash e (generateSecureOTP e) = Returns h"
      and "\<not> twilioConfigured e \<or> returns (twilioCreate e)"
      and "storeSet e = None"
  shows "\<exists>r. fst (sendOtp_issue e req ph w) = Returns r \<and> status r = 200"
  using assms
  by (auto simp add: issue_unfold returns_iff
        split: outcome.splits twilio_result.splits option.splits)

text \<open>Every successful answer of sendOtp carries the code, and the code is logged before it
  is hashed.\<close>

lemma sendOtp_leaks:
  assumes "status (fst (sendOtp e req w)) = 200"
  shows "map_of (body (fst (sendOtp e req w))) ''testOtp'' = Some (JStr (generateSecureOTP e))"
    and "(Info, ''[sendOtp] TEST MODE - OTP: '' @ generateSecureOTP e)
           \<in> set (logs (snd (sendOtp e req w)))"
proof -
  have v: "s_method req = ''POST'' \<and> truthy (s_phone req) \<and>
           isValidPhoneNumber (orElse (s_phone req) [])"
    using assms sendOtp_invalid(2)[of req e w] by auto
  let ?ph = "orElse (s_phone req) []"
  let ?w2 = "after_limit e ?ph w"
  have vv: "s_method req = ''POST''" "s_phone req = Some ?ph" "isValidPhoneNumber ?ph"
    using v send_requestI[of req] by simp_all
  note sv = sendOtp_valid[OF vv, of e w]
  have al: "fst (checkRateLimit e ?ph w) = Allowed"
    using assms by (cases "fst (checkRateLimit e ?ph w)") (simp_all add: sv sendOtp_catch_fst)
  have eq: "sendOtp e req w = sendOtp_catch (sendOtp_issue e req ?ph ?w2)"
    using al by (simp add: sv)
  obtain r where rr: "fst (sendOtp_issue e req ?ph ?w2) = Returns r"
    using assms by (cases "fst (sendOtp_issue e req ?ph ?w2)") (simp_all add: eq sendOtp_catch_fst)
  have "status r = 200" using assms rr by (simp add: eq sendOtp_catch_fst)
  then show "map_of (body (fst (sendOtp e req w))) ''testOtp'' = Some (JStr (generateSecureOTP e))"
    using issue_answer(2)[OF rr] rr by (simp add: eq sendOtp_catch_fst)
  show "(Info, ''[sendOtp] TEST MODE - OTP: '' @ generateSecureOTP e)
           \<in> set (logs (snd (sendOtp e req w)))"
    using issue_log[of e req ?ph ?w2] sendOtp_catch_logs[of "sendOtp_issue e req ?ph ?w2"]
    by (auto simp add: eq)
qed

text \<open>
  C1 fails on the code. A request for the phone \<open>+2348100000000\<close>, with every collaborator
  answering and the random number 123456, is answered with status 200 and a body whose
  field \<open>testOtp\<close> is the code \<open>123456\<close>, and the console holds the line
  \<open>[sendOtp] TEST MODE - OTP: 123456\<close>.
\<close>

theorem sendOtp_returns_and_logs_the_code:
  "generateSecureOTP env0 = ''123456'' \<and>
   status (fst (sendOtp env0 sreq0 world0)) = 200 \<and>
   map_of (body (fst (sendOtp env0 sreq0 world0))) ''testOtp'' = Some (JStr ''123456'') \<and>
   (Info, ''[sendOtp] TEST MODE - OTP: 123456'') \<in> set (logs (snd (sendOtp env0 sreq0 world0)))"
proof -
  have o: "generateSecureOTP env0 = ''123456''"
    by (simp add: generateSecureOTP_def env0_def toString_123456)
  have v: "s_method sreq0 = ''POST''" "s_phone sreq0 = Some ''+2348100000000''"
          "isValidPhoneNumber ''+2348100000000''"
    by (simp_all add: sreq0_def isValidPhoneNumber_def isDigit_def)
  have a: "fst (checkRateLimit env0 ''+2348100000000'' world0) = Allowed"
    by (simp add: checkRateLimit_fst queryByPhoneSince_def world0_def env0_def)
  have h: "bcryptHash env0 (generateSecureOTP env0) = Returns (CHR ''h'' # generateSecureOTP env0)"
          "\<not> twilioConfigured env0 \<or> returns (twilioCreate env0)" "storeSet env0 = None"
    by (simp_all add: env0_def)
  obtain r where "fst (sendOtp_issue env0 sreq0 ''+2348100000000''
                        (after_limit env0 ''+2348100000000'' world0)) = Returns r"
      and "status r = 200"
    using issue_ok[OF h] by blast
  then have s: "status (fst (sendOtp env0 sreq0 world0)) = 200"
    using a by (simp add: sendOtp_valid[OF v] sendOtp_catch_fst)
  show ?thesis using o s sendOtp_leaks[OF s] by simp
qed











text \<open>checkRateLimit reads the clock a second time after the query (line 27). When the
  clock has passed the end of the oldest session's 15 minutes in between, the wait is not
  positive and the rejection carries a retry-after of 0.\<close>

lemma second_clock_reading_retry_after_zero:
  "clock_window env_slow < clock_wait env_slow \<and>
   status (fst (sendOtp env_slow sreq0 world3)) = 429 \<and>
   map_of (body (fst (sendOtp env_slow sreq0 world3))) ''retryAfter'' = Some (JNum 0)"
proof -
  have v: "s_method sreq0 = ''POST''" "s_phone sreq0 = Some ''+2348100000000''"
          "isValidPhoneNumber ''+2348100000000''"
    by (simp_all add: sreq0_def isValidPhoneNumber_def isDigit_def)
  have q: "queryByPhoneSince (otp_sessions world3) ''+2348100000000'' 200000 =
             [sess0\<lparr>createdAt := 200001, expiresAt := 500001\<rparr>,
              sess0\<lparr>createdAt := 600000, expiresAt := 900000\<rparr>,
              sess0\<lparr>createdAt := 900000, expiresAt := 1200000\<rparr>]"
    by (simp add: queryByPhoneSince_def world3_def world0_def sess0_def)
  have c: "clock_window env_slow = 1100000" "clock_wait env_slow = 1100005"
          "storeQuery env_slow = None"
    by (simp_all add: env_slow_def env0_def)
  have l: "fst (checkRateLimit env_slow ''+2348100000000'' world3) = Limited 0"
    by (simp add: checkRateLimit_fst c q ceil_div_def)
  show ?thesis using l
    by (simp add: sendOtp_valid[OF v] sendOtp_catch_fst c q)
qed

lemma compare_store:
  "otp_sessions (snd (verifyOtp_compare e sid otp ph s w)) =
     (case bcryptCompare e otp (otpHash s) of
        Throws err \<Rightarrow> otp_sessions w
      | Returns b \<Rightarrow>
          (case storeUpdate e of
             Some err \<Rightarrow> otp_sessions w
           | None \<Rightarrow>
               (case map_of (otp_sessions w) sid of
                  None \<Rightarrow> otp_sessions w
                | Some s' \<Rightarrow>
                    AList.update sid
                      (if b then s'\<lparr>used := True\<rparr> else s'\<lparr>attempts := attempts s + 1\<rparr>)
                      (otp_sessions w))))"
  by (simp add: verifyOtp_compare_def Let_def split_def success_world
        split: outcome.splits bool.splits option.splits)

lemma compare_keeps:
  "map_of (otp_sessions w) i \<noteq> None \<Longrightarrow>
   map_of (otp_sessions (snd (verifyOtp_compare e sid otp ph s w))) i \<noteq> None"
  by (simp add: compare_store AList.update_conv' split: outcome.splits option.splits)

lemma sendOtp_never_deletes:
  "list_all (\<lambda>ev. \<not> isDelete ev) (events_of w (snd (sendOtp e req w))) \<and>
   timers (snd (sendOtp e req w)) = timers w \<and>
   (map_of (otp_sessions w) i \<noteq> None \<longrightarrow>
      map_of (otp_sessions (snd (sendOtp e req w))) i \<noteq> None)"
proof (cases "s_method req = ''POST'' \<and> truthy (s_phone req) \<and>
              isValidPhoneNumber (orElse (s_phone req) [])")
  case False
  then show ?thesis using sendOtp_invalid(1)[of req e w] by auto
next
  case True
  let ?ph = "orElse (s_phone req) []"
  let ?w2 = "after_limit e ?ph w"
  have v: "s_method req = ''POST''" "s_phone req = Some ?ph" "isValidPhoneNumber ?ph"
    using True send_requestI[of req] by simp_all
  note sv = sendOtp_valid[OF v, of e w]
  obtain evs where t: "trace (snd (sendOtp_issue e req ?ph ?w2)) = trace ?w2 @ BcryptHash # evs"
      and nd: "list_all (\<lambda>ev. \<not> isDelete ev) evs"
    using issue_trace[of e req ?ph ?w2] by blast
  have k: "map_of (otp_sessions w) i \<noteq> None \<Longrightarrow>
           map_of (otp_sessions (snd (sendOtp_issue e req ?ph ?w2))) i \<noteq> None"
    using issue_keeps[of ?w2 i _ e req ?ph] by auto
  show ?thesis
    using t nd k
    by (cases "fst (checkRateLimit e ?ph w)")
       (simp_all add: sv events_of_def isDelete_def)
qed

lemma handleRequestOTP_never_deletes:
  "list_all (\<lambda>ev. \<not> isDelete ev) (events_of w (snd (handleRequestOTP e pf w))) \<and>
   timers (snd (handleRequestOTP e pf w)) = timers w \<and>
   otp_sessions (snd (handleRequestOTP e pf w)) = otp_sessions w \<and>
   (map_of (password_reset_sessions w) i \<noteq> None \<longrightarrow>
      map_of (password_reset_sessions (snd (handleRequestOTP e pf w))) i \<noteq> None)"
proof (cases "truthy pf \<and> isValidPhoneNumber (orElse pf [])")
  case False
  then show ?thesis using handleRequestOTP_invalid[of pf e w] by auto
next
  case True
  then have v: "truthy pf" "isValidPhoneNumber (orElse pf [])" by simp_all
  let ?ph = "orElse pf []"
  let ?w3 = "emit (AuthGetUser ?ph) (after_reset_limit e ?ph w)"
  obtain evs where t: "trace (snd (handleRequestOTP_issue e ?ph ?w3)) = trace ?w3 @ BcryptHash # evs"
      and nd: "list_all (\<lambda>ev. \<not> isDelete ev) evs"
    using reset_issue_trace[of e ?ph ?w3] by blast
  have k: "map_of (password_reset_sessions w) i \<noteq> None \<Longrightarrow>
           map_of (password_reset_sessions (snd (handleRequestOTP_issue e ?ph ?w3))) i \<noteq> None"
    using reset_issue_keeps[of ?w3 i _ e ?ph] by auto
  show ?thesis
    using t nd k
    by (auto simp add: handleRequestOTP_valid[OF v] Let_def events_of_def isDelete_def
          split: rate_limit.splits outcome.splits)
qed


section \<open>Claims about the deletion of sessions\<close>

text \<open>
  C9. A call of verifyOtp deletes a session at once only when it has read a session bound to
  the request's phone and not used, and found it expired or at the attempt limit; it
  schedules a deletion (five seconds later) only when such a session passed both checks and
  the code matched, and then it deletes nothing at once: the session is still stored, marked
  used. A stored session disappears during the call only through such a deletion. The same
  holds of handleResetPassword and the password reset sessions. sendOtp and the request of
  a password reset code never delete, never schedule a deletion and never lose a stored
  session. The scheduled deletion, when it runs, removes the session.
\<close>

theorem deletion_only_on_three_events:
  assumes "verifyOtp e req w = (r, w')"
      and "sid = orElse (v_sessionId req) []" and "otp = orElse (v_otp req) []"
  shows "((\<exists>ev \<in> set (events_of w w'). isDelete ev) \<longrightarrow>
            events_of w w' = [StoreGet ''otp_sessions'' sid, StoreDelete ''otp_sessions'' sid] \<and>
            (\<exists>s. live_session req w s \<and> storeGet e = None \<and>
                 (clock_now e > expiresAt s \<or> attempts s \<ge> 5))) \<and>
         (timers w' \<noteq> timers w \<longrightarrow>
            timers w' = timers w @ [(5000, sid)] \<and>
            \<not> (\<exists>ev \<in> set (events_of w w'). isDelete ev) \<and>
            (\<exists>s. live_session req w s \<and> storeGet e = None \<and> clock_now e \<le> expiresAt s \<and>
                 attempts s < 5 \<and> bcryptCompare e otp (otpHash s) = Returns True \<and>
                 map_of (otp_sessions w') sid = Some (s\<lparr>used := True\<rparr>))) \<and>
         (\<forall>i. map_of (otp_sessions w) i \<noteq> None \<and> map_of (otp_sessions w') i = None \<longrightarrow>
              (\<exists>ev \<in> set (events_of w w'). isDelete ev)) \<and>
         (list_all (\<lambda>ev. \<not> isDelete ev) (events_of w (snd (sendOtp e sreq w))) \<and>
          timers (snd (sendOtp e sreq w)) = timers w \<and>
          (\<forall>i. map_of (otp_sessions w) i \<noteq> None \<longrightarrow>
               map_of (otp_sessions (snd (sendOtp e sreq w))) i \<noteq> None)) \<and>
         (list_all (\<lambda>ev. \<not> isDelete ev) (events_of w (snd (handleRequestOTP e pf w))) \<and>
          timers (snd (handleRequestOTP e pf w)) = timers w \<and>
          otp_sessions (snd (handleRequestOTP e pf w)) = otp_sessions w \<and>
          (\<forall>i. map_of (password_reset_sessions w) i \<noteq> None \<longrightarrow>
               map_of (password_reset_sessions (snd (handleRequestOTP e pf w))) i \<noteq> None)) \<and>
         (((\<exists>ev \<in> set (events_of w (snd (handleResetPassword e preq w))). isDelete ev) \<longrightarrow>
            events_of w (snd (handleResetPassword e preq w)) =
              [StoreGet ''password_reset_sessions'' (orElse (p_sessionId preq) []),
               StoreDelete ''password_reset_sessions'' (orElse (p_sessionId preq) [])] \<and>
            (\<exists>s. live_reset_session e preq w s \<and>
                 (clock_now e > r_expiresAt s \<or> r_attempts s \<ge> 5))) \<and>
          (reset_timers (snd (handleResetPassword e preq w)) \<noteq> reset_timers w \<longrightarrow>
            reset_timers (snd (handleResetPassword e preq w)) =
              reset_timers w @ [(5000, orElse (p_sessionId preq) [])] \<and>
            \<not> (\<exists>ev \<in> set (events_of w (snd (handleResetPassword e preq w))). isDelete ev) \<and>
            (\<exists>s. live_reset_session e preq w s \<and> clock_now e \<le> r_expiresAt s \<and>
                 r_attempts s < 5 \<and>
                 bcryptCompare e (orElse (p_otp preq) []) (r_otpHash s) = Returns True \<and>
                 map_of (password_reset_sessions (snd (handleResetPassword e preq w)))
                   (orElse (p_sessionId preq) []) = Some (s\<lparr>r_used := True\<rparr>))) \<and>
          (\<forall>i. map_of (password_reset_sessions w) i \<noteq> None \<and>
               map_of (password_reset_sessions (snd (handleResetPassword e preq w))) i = None \<longrightarrow>
               (\<exists>ev \<in> set (events_of w (snd (handleResetPassword e preq w))). isDelete ev)) \<and>
          otp_sessions (snd (handleResetPassword e preq w)) = otp_sessions w \<and>
          timers (snd (handleResetPassword e preq w)) = timers w) \<and>
         (\<forall>e' ms i w0. storeDelete e' = None \<longrightarrow>
              map_of (otp_sessions (runTimer e' (ms, i) w0)) i = None \<and>
              map_of (password_reset_sessions (runResetTimer e' (ms, i) w0)) i = None)"
proof -
  let ?D = "\<exists>ev \<in> set (events_of w w'). isDelete ev"
  let ?V1 = "?D \<longrightarrow>
            events_of w w' = [StoreGet ''otp_sessions'' sid, StoreDelete ''otp_sessions'' sid] \<and>
            (\<exists>s. live_session req w s \<and> storeGet e = None \<and>
                 (clock_now e > expiresAt s \<or> attempts s \<ge> 5))"
  let ?V2 = "timers w' \<noteq> timers w \<longrightarrow>
            timers w' = timers w @ [(5000, sid)] \<and> \<not> ?D \<and>
            (\<exists>s. live_session req w s \<and> storeGet e = None \<and> clock_now e \<le> expiresAt s \<and>
                 attempts s < 5 \<and> bcryptCompare e otp (otpHash s) = Returns True \<and>
                 map_of (otp_sessions w') sid = Some (s\<lparr>used := True\<rparr>))"
  let ?V3 = "\<forall>i. map_of (otp_sessions w) i \<noteq> None \<and> map_of (otp_sessions w') i = None \<longrightarrow> ?D"
  have r: "r = fst (verifyOtp e req w)" and w': "w' = snd (verifyOtp e req w)"
    using assms(1) by simp_all
  text \<open>A call that neither deletes, nor schedules, nor writes.\<close>
  have quiet: "?V1 \<and> ?V2 \<and> ?V3"
    if "\<not> ?D" "timers w' = timers w" "otp_sessions w' = otp_sessions w"
    using that by auto
  have verify: "?V1 \<and> ?V2 \<and> ?V3"
  proof (cases "v_method req = ''POST'' \<and> truthy (v_sessionId req) \<and> truthy (v_otp req) \<and>
                truthy (v_phone req) \<and> isValidOTP (orElse (v_otp req) [])")
    case False
    then have "w' = w" using verifyOtp_rejected(1)[of req e w] by (auto simp: w')
    then show ?thesis by (intro quiet) simp_all
  next
    case True
    let ?ph = "orElse (v_phone req) []"
    have vr: "verification_request req sid otp ?ph"
      using True verification_requestI[of req] by (simp add: assms(2,3))
    note wf = verifyOtp_wellformed[OF vr, of e w]
    let ?w1 = "after_read sid ?ph w"
    show ?thesis
    proof (cases "storeGet e")
      case (Some err)
      then show ?thesis
        by (intro quiet) (simp_all add: w' wf events_of_def isDelete_def)
    next
      case None
      note g = this
      show ?thesis
      proof (cases "map_of (otp_sessions w) sid")
        case None
        then show ?thesis using g
          by (intro quiet) (simp_all add: w' wf events_of_def isDelete_def)
      next
        case (Some s)
        let ?m = "verifyOtp_session e sid otp ?ph s ?w1"
        have v: "verifyOtp e req w = verifyOtp_catch ?m"
          by (rule verifyOtp_found[OF vr g Some])
        show ?thesis
        proof (cases "phone s \<noteq> ?ph")
          case True
          note m = session_mismatch[OF True, where e=e and sid=sid and otp=otp and w="?w1"]
          show ?thesis using m(2,3,4)
            by (intro quiet) (simp_all add: w' v events_of_def isDelete_def)
        next
          case False
          then have p: "phone s = ?ph" by simp
          show ?thesis
          proof (cases "used s")
            case True
            note m = session_used[OF p True, where e=e and sid=sid and otp=otp and w="?w1"]
            show ?thesis using m(2,3,4)
              by (intro quiet) (simp_all add: w' v events_of_def isDelete_def)
          next
            case False
            note u = this
            have live: "live_session req w s"
              using True Some p u by (simp add: live_session_def assms(2,3))
            show ?thesis
            proof (cases "clock_now e > expiresAt s \<or> attempts s \<ge> 5")
              case True
              have "trace (snd ?m) = trace ?w1 @ [StoreDelete ''otp_sessions'' sid] \<and>
                    timers (snd ?m) = timers ?w1"
              proof (cases "clock_now e > expiresAt s")
                case True
                show ?thesis
                  using session_expired(4,5)[OF p u True, where sid=sid and otp=otp and w="?w1"]
                  by simp
              next
                case False
                then have x: "clock_now e \<le> expiresAt s" and a5: "attempts s \<ge> 5"
                  using True by simp_all
                show ?thesis
                  using session_limit(4,5)[OF p u x a5, where sid=sid and otp=otp and w="?w1"]
                  by simp
              qed
              then have ev: "events_of w w' =
                          [StoreGet ''otp_sessions'' sid, StoreDelete ''otp_sessions'' sid]"
                and tm: "timers w' = timers w"
                by (simp_all add: w' v events_of_def)
              have d: "?D" using ev by (simp add: isDelete_def)
              show ?thesis using ev tm d live g True by blast
            next
              case False
              then have x: "clock_now e \<le> expiresAt s" and a: "attempts s < 5" by simp_all
              let ?c = "verifyOtp_compare e sid otp ?ph s ?w1"
              have mc: "?m = ?c" by (rule session_compare[OF p u x a])
              obtain evs where t: "trace (snd ?c) = trace ?w1 @ BcryptCompare # evs"
                  and nd: "list_all (\<lambda>ev. \<not> isDelete ev) evs"
                using compare_trace[of e sid otp ?ph s ?w1] by blast
              have ev: "events_of w w' = StoreGet ''otp_sessions'' sid # BcryptCompare # evs"
                using t by (simp add: w' v mc events_of_def)
              have d: "\<not> ?D" using ev nd by (simp add: isDelete_def list_all_iff)
              have k: "map_of (otp_sessions w') i \<noteq> None" if "map_of (otp_sessions w) i \<noteq> None" for i
                using compare_keeps[of ?w1 i e sid otp ?ph s] that by (simp add: w' v mc)
              have tm: "timers w' =
                  (if bcryptCompare e otp (otpHash s) = Returns True \<and> storeUpdate e = None
                   then timers w @ [(5000, sid)] else timers w)"
                using Some by (simp add: w' v mc compare_timers)
              have st: "map_of (otp_sessions w') sid = Some (s\<lparr>used := True\<rparr>)"
                if "bcryptCompare e otp (otpHash s) = Returns True" "storeUpdate e = None"
                using that Some by (simp add: w' v mc compare_store AList.update_conv')
              have v2: "?V2"
              proof (cases "bcryptCompare e otp (otpHash s) = Returns True \<and> storeUpdate e = None")
                case True
                then show ?thesis using tm st d live g x a by auto
              next
                case False
                then show ?thesis using tm by auto
              qed
              show ?thesis using d k v2 by blast
            qed
          qed
        qed
      qed
    qed
  qed
  have timer: "\<forall>e' ms i w0. storeDelete e' = None \<longrightarrow>
              map_of (otp_sessions (runTimer e' (ms, i) w0)) i = None \<and>
              map_of (password_reset_sessions (runResetTimer e' (ms, i) w0)) i = None"
    using runTimer_deletes runResetTimer_deletes by blast
  note send = sendOtp_never_deletes[of w e sreq]
  note request = handleRequestOTP_never_deletes[of w e pf]
  note reset = handleResetPassword_deletion[OF refl refl refl, where e=e and req=preq and w=w]
  from send have send': "list_all (\<lambda>ev. \<not> isDelete ev) (events_of w (snd (sendOtp e sreq w))) \<and>
          timers (snd (sendOtp e sreq w)) = timers w \<and>
          (\<forall>i. map_of (otp_sessions w) i \<noteq> None \<longrightarrow>
               map_of (otp_sessions (snd (sendOtp e sreq w))) i \<noteq> None)"
    by blast
  from request have request':
         "list_all (\<lambda>ev. \<not> isDelete ev) (events_of w (snd (handleRequestOTP e pf w))) \<and>
          timers (snd (handleRequestOTP e pf w)) = timers w \<and>
          otp_sessions (snd (handleRequestOTP e pf w)) = otp_sessions w \<and>
          (\<forall>i. map_of (password_reset_sessions w) i \<noteq> None \<longrightarrow>
               map_of (password_reset_sessions (snd (handleRequestOTP e pf w))) i \<noteq> None)"
    by blast
  show ?thesis
    using verify send' request' reset timer
    by (intro conjI) (elim conjE, assumption)+
qed


theorem deletion_only_on_three_events_witness:
  "(\<exists>ev \<in> set (events_of world0 (snd (verifyOtp env_late req0 world0))). isDelete ev) \<and>
   events_of world0 (snd (verifyOtp env_late req0 world0)) =
     [StoreGet ''otp_sessions'' ''s1'', StoreDelete ''otp_sessions'' ''s1''] \<and>
   live_session req0 world0 sess0 \<and> clock_now env_late > expiresAt sess0 \<and>
   timers (snd (verifyOtp env0 req0 world0)) \<noteq> timers world0 \<and>
   timers (snd (verifyOtp env0 req0 world0)) = [(5000, ''s1'')] \<and>
   map_of (otp_sessions (snd (verifyOtp env0 req0 world0))) ''s1'' = Some (sess0\<lparr>used := True\<rparr>)"
proof -
  have h: "verification_request req0 ''s1'' ''123456'' ''+2348100000000''"
    by (simp add: verification_request_def req0_def isValidOTP_def isDigit_def)
  have o: "''s1'' = orElse (v_sessionId req0) []" "''123456'' = orElse (v_otp req0) []"
    by (simp_all add: req0_def orElse_def)
  have g: "storeGet env_late = None" "storeGet env0 = None" "storeUpdate env0 = None"
    by (simp_all add: env_late_def env0_def)
  have s: "map_of (otp_sessions world0) ''s1'' = Some sess0" by (simp add: world0_def)
  have p: "phone sess0 = ''+2348100000000''" "\<not> used sess0"
          "clock_now env_late > expiresAt sess0"
          "clock_now env0 \<le> expiresAt sess0" "attempts sess0 < 5"
    by (simp_all add: sess0_def env_late_def env0_def)
  have c: "bcryptCompare env0 ''123456'' (otpHash sess0) = Returns True"
    by (simp add: env0_def sess0_def)
  have live: "live_session req0 world0 sess0"
    using s p(1,2) by (simp add: live_session_def req0_def truthy_def orElse_def isValidOTP_def
          isDigit_def)
  have d: "\<exists>ev \<in> set (events_of world0 (snd (verifyOtp env_late req0 world0))). isDelete ev"
    using session_expired(4)[OF p(1,2,3), where sid="''s1''" and otp="''123456''"
            and w="after_read ''s1'' ''+2348100000000'' world0"]
    by (simp add: verifyOtp_found[OF h g(1) s] events_of_def isDelete_def)
  have t: "timers (snd (verifyOtp env0 req0 world0)) \<noteq> timers world0"
    using c g(3) s
    by (simp add: verifyOtp_found[OF h g(2) s] session_compare[OF p(1,2,4,5)] compare_timers)
  have e0: "timers world0 = []" by (simp add: world0_def)
  note late = deletion_only_on_three_events[of env_late req0 world0
                "fst (verifyOtp env_late req0 world0)" "snd (verifyOtp env_late req0 world0)",
                OF surjective_pairing o, THEN conjunct1, rule_format]
  note ok = deletion_only_on_three_events[of env0 req0 world0
                "fst (verifyOtp env0 req0 world0)" "snd (verifyOtp env0 req0 world0)",
                OF surjective_pairing o, THEN conjunct2, THEN conjunct1, rule_format]
  have l1: "events_of world0 (snd (verifyOtp env_late req0 world0)) =
              [StoreGet ''otp_sessions'' ''s1'', StoreDelete ''otp_sessions'' ''s1'']"
    using late[OF d] by simp
  have k1: "timers (snd (verifyOtp env0 req0 world0)) = timers world0 @ [(5000, ''s1'')]"
    and "\<exists>s. live_session req0 world0 s \<and>
             map_of (otp_sessions (snd (verifyOtp env0 req0 world0))) ''s1'' =
               Some (s\<lparr>used := True\<rparr>)"
    using ok[OF t] by auto
  then have k2: "map_of (otp_sessions (snd (verifyOtp env0 req0 world0))) ''s1'' =
                   Some (sess0\<lparr>used := True\<rparr>)"
    using s by (auto simp add: live_session_def req0_def orElse_def)
  show ?thesis using d l1 live p(3) t k1 k2 e0 by simp
qed

end
